theory Spec2Isabelle
  imports Complex_Main "HOL-Library.Sublist"
begin

section \<open>Values\<close>

text \<open>
  The exceptions the training and prediction core can raise by itself. \<open>Unmodelled\<close> is
  not a Python exception: it marks the few paths on which the source goes on computing
  with a value of another kind than the typed model represents (a row of a tensor used as
  a label vector, a data loader unpacked as a list of loaders). No property below is
  about such a path.
\<close>

datatype error = IndexError | ValueError | TypeError | AttributeError | KeyError
  | UnboundLocalError | RuntimeError | Unmodelled

text \<open>
  Tensor entries. The finite values are exact rationals: rounding and overflow of the
  32-bit floats are not modelled, the not-a-number and the two infinities are, since
  \<open>centre_SNPs\<close> tests for not-a-number.
\<close>

datatype fval = Fin rat | PInf | NInf | NaN

fun fsub :: "fval \<Rightarrow> fval \<Rightarrow> fval" where
  "fsub NaN y = NaN"
| "fsub x NaN = NaN"
| "fsub (Fin a) (Fin b) = Fin (a - b)"
| "fsub (Fin a) PInf = NInf"
| "fsub (Fin a) NInf = PInf"
| "fsub PInf PInf = NaN"
| "fsub PInf y = PInf"
| "fsub NInf NInf = NaN"
| "fsub NInf y = NInf"

fun fdouble :: "fval \<Rightarrow> fval" where
  "fdouble (Fin a) = Fin (2 * a)"
| "fdouble x = x"

fun isnan :: "fval \<Rightarrow> bool" where
  "isnan NaN = True"
| "isnan x = False"

type_synonym tensor = "fval list list"
type_synonym view = "fval list list"

datatype ndarray = NDArray (rows_of: "fval list list")

text \<open>First error wins, as in a list comprehension evaluated left to right.\<close>

fun mapE :: "('a \<Rightarrow> error + 'b) \<Rightarrow> 'a list \<Rightarrow> error + 'b list" where
  "mapE f [] = Inr []"
| "mapE f (x # xs) =
     (case f x of Inl e \<Rightarrow> Inl e
      | Inr y \<Rightarrow> (case mapE f xs of Inl e \<Rightarrow> Inl e | Inr ys \<Rightarrow> Inr (y # ys)))"

section \<open>Datasets and data loaders\<close>

text \<open>
  What a data loader yields for one step: a tensor of stacked rows, or the pair of such a
  tensor and the label slice.
\<close>

datatype batch = Tensor tensor | Labelled tensor "int list"

text \<open>What the model family's methods receive.\<close>

datatype local_batch = Unlabelled "tensor list" | WithLabels "tensor list" "int list"

datatype dataset = MyDataset view | MyDataset_labels view "int list"

text \<open>
  The argument the genetic-variant branch of \<open>generate_data\<close> hands to \<open>MyDataset_SNPs\<close>:
  the whole sequence of views on the first turn of its loop, and the adapter built on the
  turn before afterwards.
\<close>

datatype snp_arg = ViewSeq "view list" | Wrapped snp_arg

datatype DataLoader = DataLoader dataset nat | DataLoader_SNPs snp_arg "nat option"

text \<open>
  Every generator of \<open>generate_data\<close> is a \<open>torch.utils.data.DataLoader\<close> built with
  \<open>shuffle=False\<close> and the default \<open>drop_last=False\<close>: it walks the dataset in index order
  and cuts it into consecutive batches of \<open>batch_size\<close> samples, the last one possibly
  shorter. \<open>len(loader)\<close> is \<open>(n + batch_size - 1) // batch_size\<close>. The constructor
  refuses a batch size that is not positive.
\<close>

function batches_of :: "nat \<Rightarrow> 'a list \<Rightarrow> 'a list list" where
  "batches_of b xs = (if b = 0 \<or> xs = [] then [] else take b xs # batches_of b (drop b xs))"
  by pat_completeness auto
termination
  by (relation "measure (\<lambda>(b, xs). length xs)") auto

declare batches_of.simps [simp del]

definition loader_len :: "nat \<Rightarrow> nat \<Rightarrow> nat" where
  "loader_len n b = (n + b - 1) div b"

definition new_DataLoader :: "dataset \<Rightarrow> nat \<Rightarrow> error + DataLoader" where
  "new_DataLoader ds b = (if b = 0 then Inl ValueError else Inr (DataLoader ds b))"

definition new_DataLoader_SNPs :: "snp_arg \<Rightarrow> nat option \<Rightarrow> error + DataLoader" where
  "new_DataLoader_SNPs a b = (if b = Some 0 then Inl ValueError else Inr (DataLoader_SNPs a b))"

text \<open>
  Modelled from the spec: the dataset adapters \<open>MyDataset\<close> and \<open>MyDataset_labels\<close> of
  \<open>utils/datasets.py\<close>, which is not part of the sources at hand. The spec calls them thin
  wrappers of a per-view array, optionally with labels, into an indexable sample provider:
  the provider has one sample per row of the view, sample \<open>i\<close> is row \<open>i\<close>, paired with
  \<open>labels[i]\<close> when there are labels (an index past the end of the labels raises).
\<close>

definition dataset_len :: "dataset \<Rightarrow> nat" where
  "dataset_len ds = (case ds of MyDataset v \<Rightarrow> length v | MyDataset_labels v ls \<Rightarrow> length v)"

definition collate_labelled :: "view \<Rightarrow> int list \<Rightarrow> nat list \<Rightarrow> error + batch" where
  "collate_labelled v ls idx =
     (case mapE (\<lambda>i. if i < length ls then Inr (ls ! i) else Inl IndexError) idx of
        Inl e \<Rightarrow> Inl e
      | Inr l \<Rightarrow> Inr (Labelled (map (\<lambda>i. v ! i) idx) l))"

definition dataset_batches :: "dataset \<Rightarrow> nat \<Rightarrow> (error + batch) list" where
  "dataset_batches ds b =
     (case ds of
        MyDataset v \<Rightarrow> map (\<lambda>rows. Inr (Tensor rows)) (batches_of b v)
      | MyDataset_labels v ls \<Rightarrow> map (collate_labelled v ls) (batches_of b [0 ..< length v]))"

text \<open>The samples that a batch carries, with or without their labels.\<close>

fun batch_data :: "batch \<Rightarrow> tensor" where
  "batch_data (Tensor t) = t"
| "batch_data (Labelled t l) = t"

text \<open>
  The collaborators of the core that are not in the sources at hand, taken as parameters:
  the methods of the model family (its networks and losses), Python's \<open>random\<close> module,
  and the genetic-variant adapter \<open>MyDataset_SNPs\<close>. The methods of the family are
  functions of the weights (\<open>'p\<close>: parameters and optimiser state), of the module's
  training flag and of whether gradients are tracked; they draw no random numbers here.
  \<open>random_seed a\<close> is the state of the generator after \<open>random.seed(a)\<close>, and
  \<open>random_sample g n k\<close> the list \<open>random.sample(range(n), k)\<close> drawn in state \<open>g\<close>
  together with the state left behind.
\<close>

datatype latents = Joint tensor | PerView "tensor list"

record ('p, 'f, 'e) collaborators =
  forward :: "'p \<Rightarrow> bool \<Rightarrow> bool \<Rightarrow> local_batch \<Rightarrow> 'f"
  loss_function :: "'p \<Rightarrow> local_batch \<Rightarrow> 'f \<Rightarrow> (string \<times> fval) list"
  backward_and_step :: "'p \<Rightarrow> local_batch \<Rightarrow> 'f \<Rightarrow> 'p"
  encode :: "'p \<Rightarrow> bool \<Rightarrow> bool \<Rightarrow> local_batch \<Rightarrow> 'e \<times> 'e"
  reparameterise :: "'p \<Rightarrow> bool \<Rightarrow> 'e \<Rightarrow> 'e \<Rightarrow> latents"
  apply_threshold :: "'p \<Rightarrow> latents \<Rightarrow> latents"
  random_seed :: "int \<Rightarrow> nat"
  random_sample :: "nat \<Rightarrow> nat \<Rightarrow> nat \<Rightarrow> nat list \<times> nat"
  snp_len :: "snp_arg \<Rightarrow> nat"
  snp_batches :: "snp_arg \<Rightarrow> nat option \<Rightarrow> (error + batch) list"

definition loader_batches :: "('p, 'f, 'e) collaborators \<Rightarrow> DataLoader \<Rightarrow> (error + batch) list" where
  "loader_batches env g =
     (case g of DataLoader ds b \<Rightarrow> dataset_batches ds b
      | DataLoader_SNPs a b \<Rightarrow> snp_batches env a b)"

text \<open>\<open>len(generator.dataset)\<close>, \<open>generator.batch_size\<close> and \<open>len(generator)\<close>.\<close>

definition loader_num_elements :: "('p, 'f, 'e) collaborators \<Rightarrow> DataLoader \<Rightarrow> nat" where
  "loader_num_elements env g =
     (case g of DataLoader ds b \<Rightarrow> dataset_len ds | DataLoader_SNPs a b \<Rightarrow> snp_len env a)"

definition loader_batch_size :: "DataLoader \<Rightarrow> nat option" where
  "loader_batch_size g = (case g of DataLoader ds b \<Rightarrow> Some b | DataLoader_SNPs a b \<Rightarrow> b)"

definition loader_num_batches :: "('p, 'f, 'e) collaborators \<Rightarrow> DataLoader \<Rightarrow> nat" where
  "loader_num_batches env g =
     (case loader_batch_size g of
        Some b \<Rightarrow> loader_len (loader_num_elements env g) b
      | None \<Rightarrow> loader_num_elements env g)"

text \<open>
  \<open>zip(*generators)\<close>: each round asks every generator in turn for its next batch and
  ends the iteration as soon as one of them is exhausted; an exception raised while a
  batch is fetched ends it with that exception. Without generators there is no round.
\<close>

fun next_all :: "(error + 'b) list list \<Rightarrow> (error + 'b list \<times> (error + 'b) list list) option" where
  "next_all [] = Some (Inr ([], []))"
| "next_all ([] # gs) = None"
| "next_all ((Inl e # g) # gs) = Some (Inl e)"
| "next_all ((Inr x # g) # gs) =
     (case next_all gs of
        None \<Rightarrow> None
      | Some (Inl e) \<Rightarrow> Some (Inl e)
      | Some (Inr (xs, gs')) \<Rightarrow> Some (Inr (x # xs, g # gs')))"

fun zip_rounds :: "(error + 'b) list \<Rightarrow> (error + 'b) list list \<Rightarrow> (error + 'b list) list" where
  "zip_rounds [] gs = []"
| "zip_rounds (Inl e # g) gs = [Inl e]"
| "zip_rounds (Inr x # g) gs =
     (case next_all gs of
        None \<Rightarrow> []
      | Some (Inl e) \<Rightarrow> [Inl e]
      | Some (Inr (xs, gs')) \<Rightarrow> Inr (x # xs) # zip_rounds g gs')"

fun zip_star :: "(error + 'b) list list \<Rightarrow> (error + 'b list) list" where
  "zip_star [] = []"
| "zip_star (g # gs) = zip_rounds g gs"

section \<open>The logger\<close>

text \<open>
  Modelled from the spec: the class \<open>Logger\<close> of \<open>utils/io_utils.py\<close>, which is not part
  of the sources at hand. The spec gives it two operations, \<open>on_train_init(field_names)\<close>
  and \<open>on_step_fi(loss_record)\<close>, and says that it accumulates a history of named scalar
  series: \<open>on_train_init\<close> starts one empty series per field name, \<open>on_step_fi\<close> appends
  each value of the loss record to the series of its name. A name without a series is a
  \<open>KeyError\<close>, as for the dictionary the series are kept in.
\<close>

datatype Logger = Logger (logs: "(string \<times> fval list) list")

definition on_train_init :: "string list \<Rightarrow> Logger" where
  "on_train_init keys = Logger (map (\<lambda>k. (k, [])) keys)"

fun log_append :: "string \<Rightarrow> fval \<Rightarrow> (string \<times> fval list) list \<Rightarrow> error + (string \<times> fval list) list" where
  "log_append k v [] = Inl KeyError"
| "log_append k v ((k', h) # rest) =
     (if k = k' then Inr ((k', h @ [v]) # rest)
      else (case log_append k v rest of Inl e \<Rightarrow> Inl e | Inr rest' \<Rightarrow> Inr ((k', h) # rest')))"

fun log_append_all :: "(string \<times> fval) list \<Rightarrow> (string \<times> fval list) list \<Rightarrow> error + (string \<times> fval list) list" where
  "log_append_all [] lg = Inr lg"
| "log_append_all ((k, v) # items) lg =
     (case log_append k v lg of Inl e \<Rightarrow> Inl e | Inr lg' \<Rightarrow> log_append_all items lg')"

definition on_step_fi :: "(string \<times> fval) list \<Rightarrow> Logger \<Rightarrow> error + Logger" where
  "on_step_fi loss lg = (case log_append_all loss (logs lg) of Inl e \<Rightarrow> Inl e | Inr l \<Rightarrow> Inr (Logger l))"

text \<open>
  A logger whose series are those of the names \<open>keys\<close>, in this order, with \<open>j\<close> entries
  each; and the numbers of entries of the series of a run's logger, to read its outcome.
\<close>

definition uniform_logger :: "string list \<Rightarrow> nat \<Rightarrow> Logger \<Rightarrow> bool" where
  "uniform_logger keys j lg =
     (map fst (logs lg) = keys \<and> list_all (\<lambda>h. length h = j) (map snd (logs lg)))"

definition entries_per_field :: "error + Logger \<Rightarrow> nat list" where
  "entries_per_field r = (case r of Inl e \<Rightarrow> [] | Inr lg \<Rightarrow> map (\<lambda>(k, h). length h) (logs lg))"

section \<open>The model instance\<close>

text \<open>
  The attributes of the instance that the core reads or writes. \<open>calls\<close> is not an
  attribute of the source: it records, in order, every batch handed to \<open>optimise_batch\<close>
  or \<open>validate_batch\<close> by the training driver, so that properties of the driver's
  control flow can be stated. \<open>rng\<close> is the state of Python's process-wide \<open>random\<close>
  module, carried with the instance. The attributes \<open>device\<close>, \<open>kwargs_generator\<close> and
  \<open>eps\<close> have no effect on what is modelled and are left out; \<open>fit\<close> is modelled for
  calls without extra keyword arguments.
\<close>

datatype call = Optimise_batch local_batch | Validate_batch local_batch

record 'p model =
  weights :: 'p
  training :: bool
  batch_size :: "nat option"
  SNP_model :: bool
  joint_representation :: bool
  sparse :: bool
  z_dim :: nat
  n_epochs :: nat
  val_set :: bool
  data :: "view list"
  labels :: "int list option"
  MAF_file :: "fval list option"
  use_GPU :: bool
  save_model :: bool
  output_path :: string
  val_logger :: "Logger option"
  rng :: nat
  calls :: "call list"


section \<open>The batch generator factory\<close>

text \<open>
  \<open>generate_data\<close>. In its genetic-variant branch the loop over the views rebinds
  \<open>data\<close> to \<open>MyDataset_SNPs(data)\<close> on every turn, so that the adapters are built on
  the sequence of views and then on one another; the loop still makes one turn per view.
  The other two branches wrap each view \<open>data_\<close>, with the instance's batch size or, when
  that is \<open>None\<close>, the view's number of rows.
\<close>

fun generate_data_SNPs :: "nat option \<Rightarrow> snp_arg \<Rightarrow> view list \<Rightarrow> error + DataLoader list" where
  "generate_data_SNPs batch_sz a [] = Inr []"
| "generate_data_SNPs batch_sz a (data_i # rest) =
     (case new_DataLoader_SNPs a batch_sz of
        Inl e \<Rightarrow> Inl e
      | Inr generator \<Rightarrow>
          (case generate_data_SNPs batch_sz (Wrapped a) rest of
             Inl e \<Rightarrow> Inl e
           | Inr generators \<Rightarrow> Inr (generator # generators)))"

definition generate_data :: "'p model \<Rightarrow> view list \<Rightarrow> int list option \<Rightarrow> error + DataLoader list" where
  "generate_data st dat lbls =
     (if SNP_model st then generate_data_SNPs (batch_size st) (ViewSeq dat) dat
      else (case lbls of
              Some ls \<Rightarrow>
                mapE (\<lambda>data_i. new_DataLoader (MyDataset_labels data_i ls)
                        (case batch_size st of Some b \<Rightarrow> b | None \<Rightarrow> length data_i)) dat
            | None \<Rightarrow>
                mapE (\<lambda>data_i. new_DataLoader (MyDataset data_i)
                        (case batch_size st of Some b \<Rightarrow> b | None \<Rightarrow> length data_i)) dat))"

section \<open>The data splitter\<close>

text \<open>
  \<open>int(x)\<close> of a float truncates towards zero. The product of the sample count and the
  fraction is taken over the rationals; for the constant \<open>0.8\<close> of \<open>data_split\<close> the
  truncated double product is the truncated exact product for every sample count below
  \<open>2 ^ 50\<close>. \<open>random.sample\<close> raises \<open>ValueError\<close> for a negative sample size or one larger
  than the population. \<open>np.setdiff1d\<close> returns the sorted, duplicate-free values of its
  first argument that are not in the second. \<open>a[idx, :]\<close> picks the rows of \<open>a\<close> in
  the order of \<open>idx\<close> and raises \<open>IndexError\<close> for an index past the last row.
\<close>

definition int_of_float :: "rat \<Rightarrow> int" where
  "int_of_float q = (if 0 \<le> q then \<lfloor>q\<rfloor> else \<lceil>q\<rceil>)"

definition sample_range :: "('p, 'f, 'e) collaborators \<Rightarrow> nat \<Rightarrow> nat \<Rightarrow> int \<Rightarrow> (error + nat list) \<times> nat" where
  "sample_range env g n k =
     (if k < 0 \<or> int n < k then (Inl ValueError, g)
      else (case random_sample env g n (nat k) of (idx, g') \<Rightarrow> (Inr idx, g')))"

definition setdiff1d :: "nat list \<Rightarrow> nat list \<Rightarrow> nat list" where
  "setdiff1d xs ys = sort (remdups (filter (\<lambda>x. x \<notin> set ys) xs))"

definition take_rows :: "'a list \<Rightarrow> nat list \<Rightarrow> error + 'a list" where
  "take_rows a idx = mapE (\<lambda>i. if i < length a then Inr (a ! i) else Inl IndexError) idx"

fun slice_views :: "nat list \<Rightarrow> nat list \<Rightarrow> view list \<Rightarrow> error + view list \<times> view list" where
  "slice_views idx_1 idx_2 [] = Inr ([], [])"
| "slice_views idx_1 idx_2 (data_i # rest) =
     (case take_rows data_i idx_1 of
        Inl e \<Rightarrow> Inl e
      | Inr data_1i \<Rightarrow>
          (case take_rows data_i idx_2 of
             Inl e \<Rightarrow> Inl e
           | Inr data_2i \<Rightarrow>
               (case slice_views idx_1 idx_2 rest of
                  Inl e \<Rightarrow> Inl e
                | Inr (data_1, data_2) \<Rightarrow> Inr (data_1i # data_1, data_2i # data_2))))"




text \<open>
  \<open>data_split(self, data, split=0.9)\<close> of the optimisation core: it seeds the generator
  with 42, samples \<open>int(n * 0.8)\<close> indices of the first view's \<open>n\<close> rows and slices every
  view; the parameter \<open>split\<close> is not read. The index lists are computed by a function
  of their own, so that statements can be made about them.
\<close>

definition split_indices :: "('p, 'f, 'e) collaborators \<Rightarrow> nat \<Rightarrow> nat \<Rightarrow> rat \<Rightarrow> (error + nat list \<times> nat list) \<times> nat" where
  "split_indices env g n fraction =
     (case sample_range env g n (int_of_float (of_nat n * fraction)) of
        (Inl e, g') \<Rightarrow> (Inl e, g')
      | (Inr idx_1, g') \<Rightarrow> (Inr (idx_1, setdiff1d [0 ..< n] idx_1), g'))"

definition data_split_indices :: "('p, 'f, 'e) collaborators \<Rightarrow> nat \<Rightarrow> view list \<Rightarrow> (error + nat list \<times> nat list) \<times> nat" where
  "data_split_indices env g dat =
     (let g1 = random_seed env 42 in
      case dat of
        [] \<Rightarrow> (Inl IndexError, g1)
      | v0 # _ \<Rightarrow> split_indices env g1 (length v0) (8 / 10))"

definition data_split :: "('p, 'f, 'e) collaborators \<Rightarrow> nat \<Rightarrow> view list \<Rightarrow> rat \<Rightarrow> (error + view list \<times> view list) \<times> nat" where
  "data_split env g dat split =
     (case data_split_indices env g dat of
        (Inl e, g2) \<Rightarrow> (Inl e, g2)
      | (Inr (idx_1, idx_2), g2) \<Rightarrow> (slice_views idx_1 idx_2 dat, g2))"


text \<open>
  \<open>MultiviewDataModule.train_test_split\<close> of the data module: the same split with the
  configured \<open>train_size\<close>, drawn in whatever state the generator is in, and applied to the
  label vector as well when there is one.
\<close>

record MultiviewDataModule =
  dm_data :: "view list"
  dm_labels :: "int list option"
  train_size :: rat

definition train_test_indices :: "('p, 'f, 'e) collaborators \<Rightarrow> nat \<Rightarrow> MultiviewDataModule \<Rightarrow> (error + nat list \<times> nat list) \<times> nat" where
  "train_test_indices env g dm =
     (case dm_data dm of
        [] \<Rightarrow> (Inl IndexError, g)
      | v0 # _ \<Rightarrow> split_indices env g (length v0) (train_size dm))"


section \<open>Preprocessing and SNP centring\<close>

text \<open>
  \<open>x.to(device)\<close> leaves a tensor as it is and does not exist for the list that a
  labelled batch is; \<open>x[0]\<close> and \<open>x[1]\<close> are the tensor and the labels of a labelled
  batch.
\<close>

fun to_device :: "batch \<Rightarrow> error + tensor" where
  "to_device (Tensor t) = Inr t"
| "to_device (Labelled t l) = Inl AttributeError"

fun item_0 :: "batch \<Rightarrow> error + tensor" where
  "item_0 (Labelled t l) = Inr t"
| "item_0 (Tensor t) = Inl Unmodelled"

fun item_1 :: "batch \<Rightarrow> error + int list" where
  "item_1 (Labelled t l) = Inr l"
| "item_1 (Tensor t) = Inl Unmodelled"

text \<open>
  The lines shared by \<open>iterate_batch\<close> and \<open>predict_latents\<close>: with labels, the label
  slices are read first, then the tensors, and the first view's labels are kept.
\<close>

definition attach_labels :: "bool \<Rightarrow> batch list \<Rightarrow> error + local_batch" where
  "attach_labels has_labels local_batch =
     (if has_labels then
        (case mapE item_1 local_batch of
           Inl e \<Rightarrow> Inl e
         | Inr lbls \<Rightarrow>
             (case mapE item_0 local_batch of
                Inl e \<Rightarrow> Inl e
              | Inr ts \<Rightarrow> (case lbls of [] \<Rightarrow> Inl IndexError | l # _ \<Rightarrow> Inr (WithLabels ts l))))
      else (case mapE to_device local_batch of Inl e \<Rightarrow> Inl e | Inr ts \<Rightarrow> Inr (Unlabelled ts)))"

text \<open>A loop that keeps what its last turn computed; \<open>None\<close> when it made no turn.\<close>

fun last_round :: "('t \<Rightarrow> error + 'r) \<Rightarrow> (error + 't) list \<Rightarrow> 'r option \<Rightarrow> error + 'r option" where
  "last_round f [] acc = Inr acc"
| "last_round f (Inl e # rest) acc = Inl e"
| "last_round f (Inr t # rest) acc =
     (case f t of Inl e \<Rightarrow> Inl e | Inr r \<Rightarrow> last_round f rest (Some r))"

definition preprocess_run :: "('p, 'f, 'e) collaborators \<Rightarrow> DataLoader list \<Rightarrow> bool \<Rightarrow> error + local_batch" where
  "preprocess_run env generators has_labels =
     (if has_labels then
        (case last_round
                (\<lambda>b. case mapE item_0 b of
                        Inl e \<Rightarrow> Inl e
                      | Inr ts \<Rightarrow> (case mapE item_1 b of Inl e \<Rightarrow> Inl e | Inr ls \<Rightarrow> Inr (ts, ls)))
                (zip_star (map (loader_batches env) generators)) None of
           Inl e \<Rightarrow> Inl e
         | Inr None \<Rightarrow> Inl UnboundLocalError
         | Inr (Some (ts, ls)) \<Rightarrow> (case ls of [] \<Rightarrow> Inl IndexError | l # _ \<Rightarrow> Inr (WithLabels ts l)))
      else
        (case last_round (mapE to_device) (zip_star (map (loader_batches env) generators)) None of
           Inl e \<Rightarrow> Inl e
         | Inr None \<Rightarrow> Inl UnboundLocalError
         | Inr (Some ts) \<Rightarrow> Inr (Unlabelled ts)))"

text \<open>
  What \<open>fit\<close> passes on: the generators of all views, or with a validation split the pair
  of the training and the validation generators; likewise for the preprocessed data.
\<close>

datatype generators_arg = Flat "DataLoader list" | Nested "DataLoader list list"

datatype data_arg = DFlat local_batch | DNested "local_batch list"

definition preprocess :: "('p, 'f, 'e) collaborators \<Rightarrow> 'p model \<Rightarrow> generators_arg \<Rightarrow> bool \<Rightarrow> error + data_arg" where
  "preprocess env st generators has_labels =
     (if val_set st then
        (case generators of
           Nested gl \<Rightarrow>
             (case mapE (\<lambda>generators_i. preprocess_run env generators_i has_labels) gl of
                Inl e \<Rightarrow> Inl e
              | Inr d \<Rightarrow> Inr (DNested d))
         | Flat gs \<Rightarrow> Inl Unmodelled)
      else
        (case generators of
           Flat gs \<Rightarrow>
             (case preprocess_run env gs has_labels of Inl e \<Rightarrow> Inl e | Inr d \<Rightarrow> Inr (DFlat d))
         | Nested gl \<Rightarrow> Inl Unmodelled))"

text \<open>
  \<open>centre_SNPs\<close>. \<open>data - 2*MAF\<close> broadcasts the frequency vector over the rows of the
  batch; \<open>MAF.repeat(data.shape[0], 1)\<close> then makes one copy of the vector per row, and
  the second subtraction is again row by row. Two rows of different lengths can be
  subtracted when one of them has a single entry. A batch without rows has no width in
  this model, so that nothing is checked for it.
\<close>

definition sub_broadcast :: "fval list \<Rightarrow> fval list \<Rightarrow> error + fval list" where
  "sub_broadcast r m =
     (if length r = length m then Inr (map (\<lambda>(x, y). fsub x y) (zip r m))
      else if length m = 1 then Inr (map (\<lambda>x. fsub x (hd m)) r)
      else if length r = 1 then Inr (map (\<lambda>y. fsub (hd r) y) m)
      else Inl RuntimeError)"

definition nan_to_zero :: "fval \<Rightarrow> fval" where
  "nan_to_zero x = (if isnan x then Fin 0 else x)"

definition centre_SNPs :: "tensor \<Rightarrow> fval list option \<Rightarrow> error + tensor" where
  "centre_SNPs dat MAF =
     (case MAF of
        None \<Rightarrow> Inl TypeError
      | Some maf \<Rightarrow>
          (case mapE (\<lambda>r. sub_broadcast r (map fdouble maf)) dat of
             Inl e \<Rightarrow> Inl e
           | Inr dat1 \<Rightarrow>
               (case mapE (\<lambda>r. sub_broadcast r (map fdouble maf)) dat1 of
                  Inl e \<Rightarrow> Inl e
                | Inr dat2 \<Rightarrow> Inr (map (map nan_to_zero) dat2))))"

text \<open>One entry of the centred batch, for the entry \<open>x\<close> and the frequency \<open>m\<close> of its column.\<close>

definition centre_entry :: "fval \<Rightarrow> fval \<Rightarrow> fval" where
  "centre_entry x m = nan_to_zero (fsub (fsub x (fdouble m)) (fdouble m))"

fun centre_batch :: "fval list option \<Rightarrow> batch \<Rightarrow> error + batch" where
  "centre_batch MAF (Tensor t) = (case centre_SNPs t MAF of Inl e \<Rightarrow> Inl e | Inr t' \<Rightarrow> Inr (Tensor t'))"
| "centre_batch MAF (Labelled t l) = Inl Unmodelled"


section \<open>The training driver\<close>

text \<open>
  \<open>optimise_batch\<close> and \<open>validate_batch\<close> of the base class. The forward pass and the
  loss are computed with the current weights; \<open>optimise_batch\<close> then reads
  \<open>loss['total']\<close> and lets the optimisers replace the weights, \<open>validate_batch\<close> puts
  the module in evaluation mode first and tracks no gradients. A model family may bring
  its own \<open>optimise_batch\<close>: the driver takes the method as the parameter \<open>opt\<close>.
\<close>

definition optimise_batch ::
  "('p, 'f, 'e) collaborators \<Rightarrow> 'p model \<Rightarrow> local_batch \<Rightarrow> (error + (string \<times> fval) list) \<times> 'p model" where
  "optimise_batch env st local_batch =
     (let fwd_return = forward env (weights st) (training st) True local_batch;
          loss = loss_function env (weights st) local_batch fwd_return
      in case map_of loss ''total'' of
           None \<Rightarrow> (Inl KeyError, st)
         | Some total_loss \<Rightarrow>
             (Inr loss, st\<lparr>weights := backward_and_step env (weights st) local_batch fwd_return\<rparr>))"

definition validate_batch ::
  "('p, 'f, 'e) collaborators \<Rightarrow> 'p model \<Rightarrow> local_batch \<Rightarrow> (error + (string \<times> fval) list) \<times> 'p model" where
  "validate_batch env st local_batch =
     (let st1 = st\<lparr>training := False\<rparr>;
          fwd_rtn = forward env (weights st1) (training st1) False local_batch;
          loss = loss_function env (weights st1) local_batch fwd_rtn
      in (Inr loss, st1))"

definition init_optimisation :: "'p model \<Rightarrow> 'p model" where
  "init_optimisation st = st\<lparr>training := True\<rparr>"

definition end_optimisation :: "'p model \<Rightarrow> 'p model" where
  "end_optimisation st = st\<lparr>training := False\<rparr>"

text \<open>
  The body of the loop of \<open>iterate_batch\<close> for one round of batches, and the line
  \<^verbatim>\<open>loss = self.validate_batch(local_batch) if self.val_set else self.optimise_batch(local_batch)\<close>
\<close>

definition iterate_step ::
  "('p, 'f, 'e) collaborators \<Rightarrow>
   ('p model \<Rightarrow> local_batch \<Rightarrow> (error + (string \<times> fval) list) \<times> 'p model) \<Rightarrow>
   batch list \<Rightarrow> 'p model \<Rightarrow> (error + (string \<times> fval) list) \<times> 'p model" where
  "iterate_step env opt local_batch st =
     (case (if SNP_model st then mapE (centre_batch (MAF_file st)) local_batch else Inr local_batch) of
        Inl e \<Rightarrow> (Inl e, st)
      | Inr centred \<Rightarrow>
          (case attach_labels (labels st \<noteq> None) centred of
             Inl e \<Rightarrow> (Inl e, st)
           | Inr lb \<Rightarrow>
               (if val_set st
                then validate_batch env (st\<lparr>calls := calls st @ [Validate_batch lb]\<rparr>) lb
                else opt (st\<lparr>calls := calls st @ [Optimise_batch lb]\<rparr>) lb)))"

fun iterate_rounds ::
  "('p, 'f, 'e) collaborators \<Rightarrow>
   ('p model \<Rightarrow> local_batch \<Rightarrow> (error + (string \<times> fval) list) \<times> 'p model) \<Rightarrow>
   (error + batch list) list \<Rightarrow> (string \<times> fval) list option \<Rightarrow> 'p model \<Rightarrow>
   (error + (string \<times> fval) list) \<times> 'p model" where
  "iterate_rounds env opt [] loss st =
     (case loss of None \<Rightarrow> (Inl UnboundLocalError, st) | Some l \<Rightarrow> (Inr l, st))"
| "iterate_rounds env opt (Inl e # rest) loss st = (Inl e, st)"
| "iterate_rounds env opt (Inr local_batch # rest) loss st =
     (case iterate_step env opt local_batch st of
        (Inl e, st') \<Rightarrow> (Inl e, st')
      | (Inr l, st') \<Rightarrow> iterate_rounds env opt rest (Some l) st')"

definition iterate_batch ::
  "('p, 'f, 'e) collaborators \<Rightarrow>
   ('p model \<Rightarrow> local_batch \<Rightarrow> (error + (string \<times> fval) list) \<times> 'p model) \<Rightarrow>
   DataLoader list \<Rightarrow> 'p model \<Rightarrow> (error + (string \<times> fval) list) \<times> 'p model" where
  "iterate_batch env opt generators st =
     iterate_rounds env opt (zip_star (map (loader_batches env) generators)) None st"

text \<open>
  \<open>optimise\<close>. With a validation split the two halves are unpacked first. The logger of
  an epoch: the first epoch creates it from the names of the loss record, every later
  epoch appends the loss record.
\<close>

definition log_epoch :: "nat \<Rightarrow> (string \<times> fval) list \<Rightarrow> Logger option \<Rightarrow> error + Logger" where
  "log_epoch epoch loss logger =
     (if epoch = 1 then Inr (on_train_init (map fst loss))
      else (case logger of None \<Rightarrow> Inl UnboundLocalError | Some lg \<Rightarrow> on_step_fi loss lg))"

definition train_pass ::
  "('p, 'f, 'e) collaborators \<Rightarrow>
   ('p model \<Rightarrow> local_batch \<Rightarrow> (error + (string \<times> fval) list) \<times> 'p model) \<Rightarrow>
   DataLoader list option \<Rightarrow> local_batch option \<Rightarrow> 'p model \<Rightarrow>
   (error + (string \<times> fval) list) \<times> 'p model" where
  "train_pass env opt generators dat st =
     (case (batch_size st, generators) of
        (Some b, Some gs) \<Rightarrow> iterate_batch env opt gs st
      | _ \<Rightarrow>
          (case dat of
             None \<Rightarrow> (Inl Unmodelled, st)
           | Some d \<Rightarrow> opt (st\<lparr>calls := calls st @ [Optimise_batch d]\<rparr>) d))"

definition val_pass ::
  "('p, 'f, 'e) collaborators \<Rightarrow>
   ('p model \<Rightarrow> local_batch \<Rightarrow> (error + (string \<times> fval) list) \<times> 'p model) \<Rightarrow>
   DataLoader list option \<Rightarrow> local_batch option \<Rightarrow> 'p model \<Rightarrow>
   (error + (string \<times> fval) list) \<times> 'p model" where
  "val_pass env opt val_generators val_data st =
     (case (batch_size st, val_generators) of
        (Some b, Some gs) \<Rightarrow> iterate_batch env opt gs st
      | (Some b, None) \<Rightarrow> (Inl UnboundLocalError, st)
      | (None, _) \<Rightarrow>
          (case val_data of
             None \<Rightarrow> (Inl UnboundLocalError, st)
           | Some d \<Rightarrow> validate_batch env (st\<lparr>calls := calls st @ [Validate_batch d]\<rparr>) d))"

fun optimise_epochs ::
  "('p, 'f, 'e) collaborators \<Rightarrow>
   ('p model \<Rightarrow> local_batch \<Rightarrow> (error + (string \<times> fval) list) \<times> 'p model) \<Rightarrow>
   DataLoader list option \<Rightarrow> local_batch option \<Rightarrow>
   DataLoader list option \<Rightarrow> local_batch option \<Rightarrow>
   nat list \<Rightarrow> Logger option \<Rightarrow> 'p model \<Rightarrow> (error + Logger) \<times> 'p model" where
  "optimise_epochs env opt gens dat vgens vdat [] logger st =
     (case logger of None \<Rightarrow> (Inl UnboundLocalError, st) | Some lg \<Rightarrow> (Inr lg, st))"
| "optimise_epochs env opt gens dat vgens vdat (epoch # later) logger st =
     (case train_pass env opt gens dat (init_optimisation st) of
        (Inl e, st1) \<Rightarrow> (Inl e, st1)
      | (Inr loss, st1) \<Rightarrow>
          (case log_epoch epoch loss logger of
             Inl e \<Rightarrow> (Inl e, st1)
           | Inr lg \<Rightarrow>
               (if val_set st1 then
                  (case val_pass env opt vgens vdat st1 of
                     (Inl e, st2) \<Rightarrow> (Inl e, st2)
                   | (Inr val_loss, st2) \<Rightarrow>
                       (case log_epoch epoch val_loss (val_logger st2) of
                          Inl e \<Rightarrow> (Inl e, st2)
                        | Inr vlg \<Rightarrow>
                            optimise_epochs env opt gens dat vgens vdat later (Some lg)
                              (st2\<lparr>val_logger := Some vlg\<rparr>)))
                else optimise_epochs env opt gens dat vgens vdat later (Some lg) st1)))"

definition optimise ::
  "('p, 'f, 'e) collaborators \<Rightarrow>
   ('p model \<Rightarrow> local_batch \<Rightarrow> (error + (string \<times> fval) list) \<times> 'p model) \<Rightarrow>
   generators_arg option \<Rightarrow> data_arg option \<Rightarrow> 'p model \<Rightarrow> (error + Logger) \<times> 'p model" where
  "optimise env opt generators dat st =
     (let epochs = [1 ..< n_epochs st + 1] in
      if val_set st then
        (case generators of
           Some (Nested (gs # vgs # _)) \<Rightarrow> optimise_epochs env opt (Some gs) None (Some vgs) None epochs None st
         | Some (Nested _) \<Rightarrow> (Inl IndexError, st)
         | Some (Flat _) \<Rightarrow> (Inl Unmodelled, st)
         | None \<Rightarrow>
             (case dat of
                Some (DNested (d # vd # _)) \<Rightarrow> optimise_epochs env opt None (Some d) None (Some vd) epochs None st
              | Some (DNested _) \<Rightarrow> (Inl IndexError, st)
              | Some (DFlat _) \<Rightarrow> (Inl Unmodelled, st)
              | None \<Rightarrow> (Inl IndexError, st)))
      else
        (case (generators, dat) of
           (Some (Nested _), _) \<Rightarrow> (Inl Unmodelled, st)
         | (_, Some (DNested _)) \<Rightarrow> (Inl Unmodelled, st)
         | (Some (Flat gs), Some (DFlat d)) \<Rightarrow> optimise_epochs env opt (Some gs) (Some d) None None epochs None st
         | (Some (Flat gs), None) \<Rightarrow> optimise_epochs env opt (Some gs) None None None epochs None st
         | (None, Some (DFlat d)) \<Rightarrow> optimise_epochs env opt None (Some d) None None epochs None st
         | (None, None) \<Rightarrow> optimise_epochs env opt None None None None epochs None st))"

text \<open>
  \<open>fit\<close>. Its parameter \<open>batch_size\<close> is not stored (\<open>self.batch_size = self.batch_size\<close>):
  the batch size is the one the instance already has. Saving the model and plotting the
  losses, both after the training, are input and output and are not modelled.
\<close>

record fit_args =
  arg_data :: "view list"
  arg_labels :: "int list option"
  arg_MAF_file :: "fval list option"
  arg_use_GPU :: bool
  arg_save_model :: bool
  arg_output_path :: string
  arg_n_epochs :: nat
  arg_batch_size :: "nat option"
  arg_val_set :: bool

definition fit_generators :: "('p, 'f, 'e) collaborators \<Rightarrow> 'p model \<Rightarrow> (error + generators_arg) \<times> 'p model" where
  "fit_generators env st =
     (if val_set st then
        (case data_split env (rng st) (data st) (9 / 10) of
           (Inl e, g) \<Rightarrow> (Inl e, st\<lparr>rng := g\<rparr>)
         | (Inr (data_1, data_2), g) \<Rightarrow>
             (case mapE (\<lambda>data_i. generate_data st data_i (labels st)) [data_1, data_2] of
                Inl e \<Rightarrow> (Inl e, st\<lparr>rng := g\<rparr>)
              | Inr gl \<Rightarrow> (Inr (Nested gl), st\<lparr>rng := g\<rparr>)))
      else
        (case generate_data st (data st) (labels st) of
           Inl e \<Rightarrow> (Inl e, st)
         | Inr gs \<Rightarrow> (Inr (Flat gs), st)))"

definition fit ::
  "('p, 'f, 'e) collaborators \<Rightarrow>
   ('p model \<Rightarrow> local_batch \<Rightarrow> (error + (string \<times> fval) list) \<times> 'p model) \<Rightarrow>
   fit_args \<Rightarrow> 'p model \<Rightarrow> (error + Logger) \<times> 'p model" where
  "fit env opt args st =
     (let st0 = st\<lparr>use_GPU := arg_use_GPU args, save_model := arg_save_model args,
                   output_path := arg_output_path args, n_epochs := arg_n_epochs args,
                   data := arg_data args, labels := arg_labels args,
                   MAF_file := arg_MAF_file args, val_set := arg_val_set args\<rparr>
      in case fit_generators env st0 of
           (Inl e, st1) \<Rightarrow> (Inl e, st1)
         | (Inr generators, st1) \<Rightarrow>
             (case (if batch_size st1 \<noteq> None then optimise env opt (Some generators) None st1
                    else (case preprocess env st1 generators (labels st1 \<noteq> None) of
                            Inl e \<Rightarrow> (Inl e, st1)
                          | Inr d \<Rightarrow> optimise env opt None (Some d) st1)) of
                (Inl e, st2) \<Rightarrow> (Inl e, st2)
              | (Inr logger, st2) \<Rightarrow> (Inr logger, end_optimisation st2)))"


section \<open>Prediction\<close>

text \<open>
  \<open>predict_latents\<close>, \<open>predict_reconstruction\<close> and their overrides in the other
  families compute, for the batch numbered \<open>batch_idx\<close>:
  \<^verbatim>\<open>
      start = batch_idx * batch_size
      end = start + batch_size
      if batch_idx == num_batches - 1:
          end = num_elements
  \<close>
  \<open>num_batches - 1\<close> is a Python integer and is \<open>-1\<close> for an empty loader, so the
  comparison is made over \<open>int\<close>.
\<close>

definition batch_window :: "nat \<Rightarrow> nat \<Rightarrow> nat \<Rightarrow> nat \<Rightarrow> nat \<times> nat" where
  "batch_window batch_sz num_batches num_elements batch_idx =
     (let start = batch_idx * batch_sz;
          end0 = start + batch_sz;
          end1 = (if int batch_idx = int num_batches - 1 then num_elements else end0)
      in (start, end1))"

text \<open>
  The windows of one pass over a loader of \<open>num_elements\<close> samples: \<open>enumerate\<close> numbers the
  batches that the loader yields \<open>0, 1, ...\<close>, and \<open>num_batches\<close> is \<open>len\<close> of the loader.
\<close>

definition batch_windows :: "nat \<Rightarrow> nat \<Rightarrow> (nat \<times> nat) list" where
  "batch_windows num_elements batch_sz =
     map (batch_window batch_sz (loader_len num_elements batch_sz) num_elements)
       [0 ..< length (batches_of batch_sz [0 ..< num_elements])]"


text \<open>
  \<open>acc[start:end, :] = val\<close>: the slice is cut to the rows that exist; \<open>val\<close> must have
  as many rows as the slice, or a single row that is repeated, and likewise within each
  row.
\<close>

definition broadcast_to :: "nat \<Rightarrow> 'a list \<Rightarrow> 'a list option" where
  "broadcast_to k xs =
     (if length xs = k then Some xs
      else if length xs = 1 then Some (replicate k (hd xs))
      else None)"

definition slice_assign :: "tensor \<Rightarrow> nat \<Rightarrow> nat \<Rightarrow> tensor \<Rightarrow> error + tensor" where
  "slice_assign acc start end1 val =
     (let s = min start (length acc); e = max s (min end1 (length acc)) in
      case broadcast_to (e - s) val of
        None \<Rightarrow> Inl RuntimeError
      | Some rws \<Rightarrow>
          (case mapE (\<lambda>(old, new). case broadcast_to (length old) new of
                                      None \<Rightarrow> Inl RuntimeError
                                    | Some r \<Rightarrow> Inr r)
                  (zip (take (e - s) (drop s acc)) rws) of
             Inl err \<Rightarrow> Inl err
           | Inr rws' \<Rightarrow> Inr (take s acc @ rws' @ drop e acc)))"

fun assign_views :: "tensor list \<Rightarrow> nat \<Rightarrow> nat \<Rightarrow> nat \<Rightarrow> tensor list \<Rightarrow> error + tensor list" where
  "assign_views predictions start end1 i [] = Inr predictions"
| "assign_views predictions start end1 i (pred_i # rest) =
     (if i < length predictions then
        (case slice_assign (predictions ! i) start end1 pred_i of
           Inl e \<Rightarrow> Inl e
         | Inr p \<Rightarrow> assign_views (predictions[i := p]) start end1 (Suc i) rest)
      else Inl IndexError)"

definition zeros :: "nat \<Rightarrow> nat \<Rightarrow> tensor" where
  "zeros n m = replicate n (replicate m (Fin 0))"

text \<open>
  The latent codes of one batch: \<open>encode\<close>, \<open>reparameterise\<close> and, for a sparse model,
  \<open>apply_threshold\<close>, all inside \<open>with torch.no_grad()\<close>.
\<close>

definition latents_of :: "('p, 'f, 'e) collaborators \<Rightarrow> 'p model \<Rightarrow> local_batch \<Rightarrow> latents" where
  "latents_of env st lb =
     (case encode env (weights st) (training st) False lb of
        (mu, logvar) \<Rightarrow>
          (let pred = reparameterise env (weights st) (training st) mu logvar
           in if sparse st then apply_threshold env (weights st) pred else pred))"

definition predict_step ::
  "('p, 'f, 'e) collaborators \<Rightarrow> 'p model \<Rightarrow> nat \<Rightarrow> nat \<Rightarrow> nat \<Rightarrow> nat \<Rightarrow> batch list \<Rightarrow>
   latents \<Rightarrow> error + latents" where
  "predict_step env st batch_sz num_batches num_elements batch_idx local_batch predictions =
     (case attach_labels (labels st \<noteq> None) local_batch of
        Inl e \<Rightarrow> Inl e
      | Inr lb \<Rightarrow>
          (let pred = latents_of env st lb;
               w = batch_window batch_sz num_batches num_elements batch_idx
           in if joint_representation st then
                (case (predictions, pred) of
                   (Joint acc, Joint p) \<Rightarrow>
                     (case slice_assign acc (fst w) (snd w) p of
                        Inl e \<Rightarrow> Inl e
                      | Inr acc' \<Rightarrow> Inr (Joint acc'))
                 | (Joint acc, PerView ps) \<Rightarrow> Inl TypeError
                 | (PerView accs, _) \<Rightarrow> Inl Unmodelled)
              else
                (case (predictions, pred) of
                   (PerView accs, PerView ps) \<Rightarrow>
                     (case assign_views accs (fst w) (snd w) 0 ps of
                        Inl e \<Rightarrow> Inl e
                      | Inr accs' \<Rightarrow> Inr (PerView accs'))
                 | _ \<Rightarrow> Inl Unmodelled)))"

fun predict_rounds ::
  "('p, 'f, 'e) collaborators \<Rightarrow> 'p model \<Rightarrow> nat \<Rightarrow> nat \<Rightarrow> nat \<Rightarrow> nat \<Rightarrow>
   (error + batch list) list \<Rightarrow> latents \<Rightarrow> error + latents" where
  "predict_rounds env st batch_sz num_batches num_elements batch_idx [] predictions = Inr predictions"
| "predict_rounds env st batch_sz num_batches num_elements batch_idx (Inl e # rest) predictions = Inl e"
| "predict_rounds env st batch_sz num_batches num_elements batch_idx (Inr local_batch # rest) predictions =
     (case predict_step env st batch_sz num_batches num_elements batch_idx local_batch predictions of
        Inl e \<Rightarrow> Inl e
      | Inr predictions' \<Rightarrow>
          predict_rounds env st batch_sz num_batches num_elements (Suc batch_idx) rest predictions')"

text \<open>\<open>x.cpu().detach().numpy()\<close>: the plain array of a tensor's entries.\<close>

definition numpy :: "tensor \<Rightarrow> ndarray" where
  "numpy t = NDArray t"

datatype prediction = JointArray ndarray | ViewArrays "ndarray list"

definition to_arrays :: "bool \<Rightarrow> latents \<Rightarrow> error + prediction" where
  "to_arrays joint predictions =
     (if joint then
        (case predictions of Joint t \<Rightarrow> Inr (JointArray (numpy t)) | PerView ts \<Rightarrow> Inl AttributeError)
      else
        (case predictions of PerView ts \<Rightarrow> Inr (ViewArrays (map numpy ts)) | Joint t \<Rightarrow> Inl Unmodelled))"

text \<open>
  \<open>predict_latents(self, *data, labels=None, val_set=False)\<close>. The three assignments
  to the instance come first, so they are made whatever happens afterwards.
\<close>

definition predict_latents_from ::
  "('p, 'f, 'e) collaborators \<Rightarrow> 'p model \<Rightarrow> error + prediction" where
  "predict_latents_from env st =
     (case generate_data st (data st) (labels st) of
        Inl e \<Rightarrow> Inl e
      | Inr generators \<Rightarrow>
          (case (if batch_size st = None
                 then (case preprocess env st (Flat generators) (labels st \<noteq> None) of
                         Inl e \<Rightarrow> Inl e
                       | Inr d \<Rightarrow> Inr (Some d))
                 else Inr None) of
             Inl e \<Rightarrow> Inl e
           | Inr dat \<Rightarrow>
               (case generators of
                  [] \<Rightarrow> Inl IndexError
                | g0 # _ \<Rightarrow>
                    (let num_elements = loader_num_elements env g0;
                         num_batches = loader_num_batches env g0
                     in case (batch_size st, loader_batch_size g0, dat) of
                          (Some b, Some batch_sz, _) \<Rightarrow>
                            (case predict_rounds env st batch_sz num_batches num_elements 0
                                    (zip_star (map (loader_batches env) generators))
                                    (if joint_representation st
                                     then Joint (zeros num_elements (z_dim st))
                                     else PerView (map (\<lambda>i. zeros num_elements (z_dim st))
                                                     [0 ..< length generators])) of
                               Inl e \<Rightarrow> Inl e
                             | Inr predictions \<Rightarrow> to_arrays (joint_representation st) predictions)
                        | (Some b, None, _) \<Rightarrow> Inl TypeError
                        | (None, _, Some (DFlat d)) \<Rightarrow>
                            to_arrays (joint_representation st) (latents_of env st d)
                        | (None, _, _) \<Rightarrow> Inl Unmodelled))))"

definition predict_latents ::
  "('p, 'f, 'e) collaborators \<Rightarrow> view list \<Rightarrow> int list option \<Rightarrow> bool \<Rightarrow> 'p model \<Rightarrow>
   (error + prediction) \<times> 'p model" where
  "predict_latents env dat lbls vs st =
     (let st1 = st\<lparr>data := dat, labels := lbls, val_set := vs\<rparr>
      in (predict_latents_from env st1, st1))"


section \<open>A small model family for concrete runs\<close>

text \<open>
  A stand-in for the collaborators, used to run the core on concrete inputs: the weights
  count the optimiser steps, the loss record has the fields \<open>total\<close> and \<open>kl\<close>, the
  latent code of a view is its first column, and the sampler takes the first \<open>k\<close> entries
  of the population rotated by the state of the generator.
\<close>

definition toy_sample :: "nat \<Rightarrow> nat \<Rightarrow> nat \<Rightarrow> nat list \<times> nat" where
  "toy_sample g n k = (take k (rotate g [0 ..< n]), Suc g)"

definition toy_tensors :: "local_batch \<Rightarrow> tensor list" where
  "toy_tensors lb = (case lb of Unlabelled ts \<Rightarrow> ts | WithLabels ts l \<Rightarrow> ts)"

definition toy :: "(nat, nat, tensor list) collaborators" where
  "toy = \<lparr>forward = (\<lambda>p tr gr lb. p),
          loss_function = (\<lambda>p lb fwd. [(''total'', Fin (of_nat fwd)), (''kl'', Fin 0)]),
          backward_and_step = (\<lambda>p lb fwd. Suc p),
          encode = (\<lambda>p tr gr lb. (toy_tensors lb, toy_tensors lb)),
          reparameterise = (\<lambda>p tr mu logvar. PerView (map (map (take 1)) mu)),
          apply_threshold = (\<lambda>p z. z),
          random_seed = (\<lambda>a. nat \<bar>a\<bar>),
          random_sample = toy_sample,
          snp_len = (\<lambda>a. 0),
          snp_batches = (\<lambda>a b. [])\<rparr>"

definition model0 :: "nat model" where
  "model0 = \<lparr>weights = 0, training = False, batch_size = Some 1, SNP_model = False,
             joint_representation = False, sparse = False, z_dim = 1, n_epochs = 0,
             val_set = False, data = [], labels = None, MAF_file = None, use_GPU = False,
             save_model = False, output_path = [], val_logger = None, rng = 0, calls = []\<rparr>"

definition two_views :: "view list" where
  "two_views = [[[Fin 1, Fin 2], [Fin 3, Fin 4]], [[Fin 5], [Fin 6]]]"

definition args0 :: fit_args where
  "args0 = \<lparr>arg_data = two_views, arg_labels = None, arg_MAF_file = None, arg_use_GPU = False,
            arg_save_model = False, arg_output_path = [], arg_n_epochs = 2,
            arg_batch_size = None, arg_val_set = False\<rparr>"

text \<open>
  The end-to-end scenario of the spec: two views of 100 samples with 10 and 8 features,
  no labels, batch size 25, two epochs, no validation split.
\<close>

definition scenario_views :: "view list" where
  "scenario_views = [replicate 100 (replicate 10 (Fin 1)), replicate 100 (replicate 8 (Fin 2))]"

definition scenario_model :: "nat model" where
  "scenario_model = model0\<lparr>batch_size := Some 25\<rparr>"

definition scenario_args :: fit_args where
  "scenario_args = args0\<lparr>arg_data := scenario_views, arg_n_epochs := 2, arg_val_set := False\<rparr>"



section \<open>Properties of the data loader\<close>

lemma loader_len_small: assumes "0 < n" "n \<le> b" shows "loader_len n b = 1"
proof -
  from assms have e: "n + b - 1 = b + (n - 1)" and l: "n - 1 < b" by simp_all
  have "(b + (n - 1)) div b = (n - 1) div b + 1" using assms by (subst div_add_self1) simp_all
  with l e show ?thesis unfolding loader_len_def by simp
qed

lemma loader_len_step: assumes "0 < b" "b \<le> n" shows "loader_len n b = Suc (loader_len (n - b) b)"
proof -
  from assms have e: "n + b - 1 = (n - b + b - 1) + b" by simp
  show ?thesis unfolding loader_len_def e using assms by (subst div_add_self2) simp_all
qed

lemma loader_len_zero: "loader_len 0 b = 0"
  by (cases b) (simp_all add: loader_len_def)

lemma loader_len_pos: assumes "0 < b" "0 < n" shows "0 < loader_len n b"
proof -
  from assms have "b \<le> n + b - 1" by simp
  then show ?thesis unfolding loader_len_def using assms(1) by (simp add: div_greater_zero_iff)
qed

lemma loader_len_upper: assumes "0 < b" shows "n \<le> loader_len n b * b"
proof -
  have "n + b - 1 = (n + b - 1) div b * b + (n + b - 1) mod b" by simp
  moreover have "(n + b - 1) mod b < b" using assms by simp
  ultimately have "n + b - 1 < loader_len n b * b + b" unfolding loader_len_def by linarith
  then show ?thesis using assms by simp
qed

lemma loader_len_lower: assumes "0 < b" "0 < n" shows "(loader_len n b - 1) * b < n"
proof -
  have "(n + b - 1) div b * b \<le> n + b - 1" by simp
  then have "loader_len n b * b \<le> n + b - 1" unfolding loader_len_def .
  moreover have "(loader_len n b - 1) * b = loader_len n b * b - b" by (simp add: diff_mult_distrib)
  ultimately show ?thesis using assms by linarith
qed


lemma batches_of_empty [simp]: "batches_of b [] = []"
  by (subst batches_of.simps) simp

lemma batches_of_step: "0 < b \<Longrightarrow> xs \<noteq> [] \<Longrightarrow> batches_of b xs = take b xs # batches_of b (drop b xs)"
  by (subst batches_of.simps) simp

lemma length_batches_of:
  "0 < b \<Longrightarrow> length (batches_of b xs) = loader_len (length xs) b"
proof (induction b xs rule: batches_of.induct)
  case (1 b xs)
  show ?case
  proof (cases "xs = []")
    case True
    then show ?thesis by (simp add: loader_len_zero)
  next
    case False
    with "1.prems" "1.IH" have ih: "length (batches_of b (drop b xs)) = loader_len (length xs - b) b"
      by simp
    have unf: "batches_of b xs = take b xs # batches_of b (drop b xs)"
      using False "1.prems" by (simp add: batches_of_step)
    show ?thesis
    proof (cases "length xs \<le> b")
      case True
      with False have "loader_len (length xs) b = 1"
        by (intro loader_len_small) simp_all
      moreover from True have "batches_of b (drop b xs) = []" by simp
      ultimately show ?thesis by (simp add: unf)
    next
      case gt: False
      then have "loader_len (length xs) b = Suc (loader_len (length xs - b) b)"
        using "1.prems" by (intro loader_len_step) simp_all
      with ih show ?thesis by (simp add: unf)
    qed
  qed
qed

lemma concat_batches_of: "0 < b \<Longrightarrow> concat (batches_of b xs) = xs"
proof (induction b xs rule: batches_of.induct)
  case (1 b xs)
  show ?case
  proof (cases "xs = []")
    case True
    then show ?thesis by simp
  next
    case False
    with "1.IH" "1.prems" show ?thesis by (simp add: batches_of_step)
  qed
qed

section \<open>Index bookkeeping of the prediction loops\<close>









text \<open>
  A run of the loop itself: a view of three samples predicted in batches of two. The
  second, short batch is written to the rows 2 to 3, and the result has the three rows
  in their order.
\<close>

lemma predict_latents_short_last_batch:
  "fst (predict_latents toy [[[Fin 1], [Fin 2], [Fin 3]]] None False (model0\<lparr>batch_size := Some 2\<rparr>)) =
     Inr (ViewArrays [NDArray [[Fin 1], [Fin 2], [Fin 3]]]) \<and>
   batch_windows 3 2 = [(0, 2), (2, 3)]"
  by code_simp

section \<open>The training driver: which method receives the batches\<close>

text \<open>
  Claim C1, at an input where the code departs from it. The standard family is fitted on
  two views of two samples each, with batch size 1 and two epochs. With a validation
  split (the first four lines) every batch of the training generators is handed to
  \<open>validate_batch\<close>, as are those of the validation generators: \<open>optimise_batch\<close> is never
  called and the weights are the ones before the run. Without a validation split (the
  last lines) the four training batches go to \<open>optimise_batch\<close> and the optimisers make
  four steps.
\<close>

theorem fit_val_set_skips_optimise_batch:
  "calls (snd (fit toy (optimise_batch toy) (args0\<lparr>arg_val_set := True\<rparr>) model0)) =
     [Validate_batch (Unlabelled [[[Fin 1, Fin 2]], [[Fin 5]]]),
      Validate_batch (Unlabelled [[[Fin 3, Fin 4]], [[Fin 6]]]),
      Validate_batch (Unlabelled [[[Fin 1, Fin 2]], [[Fin 5]]]),
      Validate_batch (Unlabelled [[[Fin 3, Fin 4]], [[Fin 6]]])] \<and>
   weights (snd (fit toy (optimise_batch toy) (args0\<lparr>arg_val_set := True\<rparr>) model0)) = 0 \<and>
   calls (snd (fit toy (optimise_batch toy) args0 model0)) =
     [Optimise_batch (Unlabelled [[[Fin 1, Fin 2]], [[Fin 5]]]),
      Optimise_batch (Unlabelled [[[Fin 3, Fin 4]], [[Fin 6]]]),
      Optimise_batch (Unlabelled [[[Fin 1, Fin 2]], [[Fin 5]]]),
      Optimise_batch (Unlabelled [[[Fin 3, Fin 4]], [[Fin 6]]])] \<and>
   weights (snd (fit toy (optimise_batch toy) args0 model0)) = 4"
  by code_simp

section \<open>What prediction does to the instance\<close>

lemma snd_predict_latents:
  "snd (predict_latents env dat lbls vs st) = st\<lparr>data := dat, labels := lbls, val_set := vs\<rparr>"
  by (simp add: predict_latents_def Let_def)

text \<open>
  Claim C10. Every call of \<open>predict_latents\<close> leaves the instance as it was except for
  the attributes \<open>data\<close>, \<open>labels\<close> and \<open>val_set\<close>, which hold the arguments of the
  call afterwards, also when the call ends in an exception. A call that does not pass
  \<open>val_set\<close> passes its default \<open>False\<close>: whatever the instance held before, it holds
  the inputs of the prediction and \<open>val_set = False\<close> afterwards. The last four lines
  are the run of the claim: the standard family fitted with a validation split has
  \<open>val_set = True\<close> and the training views as its data; after one prediction it has
  \<open>val_set = False\<close> and the predicted view as its data.
\<close>

theorem predict_latents_overwrites_attributes:
  "snd (predict_latents env dat lbls vs st) = st\<lparr>data := dat, labels := lbls, val_set := vs\<rparr> \<and>
   data (snd (predict_latents env dat lbls False st)) = dat \<and>
   labels (snd (predict_latents env dat lbls False st)) = lbls \<and>
   val_set (snd (predict_latents env dat lbls False st)) = False \<and>
   val_set (snd (fit toy (optimise_batch toy) (args0\<lparr>arg_val_set := True\<rparr>) model0)) = True \<and>
   data (snd (fit toy (optimise_batch toy) (args0\<lparr>arg_val_set := True\<rparr>) model0)) = two_views \<and>
   val_set (snd (predict_latents toy [[[Fin 7]]] None False
                  (snd (fit toy (optimise_batch toy) (args0\<lparr>arg_val_set := True\<rparr>) model0)))) = False \<and>
   data (snd (predict_latents toy [[[Fin 7]]] None False
               (snd (fit toy (optimise_batch toy) (args0\<lparr>arg_val_set := True\<rparr>) model0)))) = [[[Fin 7]]]"
proof -
  have b: "val_set (snd (fit toy (optimise_batch toy) (args0\<lparr>arg_val_set := True\<rparr>) model0)) = True"
    by code_simp
  have c: "data (snd (fit toy (optimise_batch toy) (args0\<lparr>arg_val_set := True\<rparr>) model0)) = two_views"
    by code_simp
  show ?thesis by (simp add: snd_predict_latents b c)
qed

section \<open>Properties of SNP centring\<close>

lemma mapE_Inr:
  "(\<And>x. x \<in> set xs \<Longrightarrow> f x = Inr (g x)) \<Longrightarrow> mapE f xs = Inr (map g xs)"
  by (induction xs) simp_all

lemma fsub_zero [simp]: "fsub x (Fin 0) = x"
  by (cases x) simp_all

lemma isnan_nan_to_zero [simp]: "\<not> isnan (nan_to_zero x)"
  by (cases x) (simp_all add: nan_to_zero_def)

lemma nan_to_zero_id: "\<not> isnan x \<Longrightarrow> nan_to_zero x = x"
  by (simp add: nan_to_zero_def)

lemma centre_SNPs_rows:
  assumes "\<forall>r\<in>set dat. length r = length maf"
  shows "centre_SNPs dat (Some maf) =
           Inr (map (\<lambda>r. map (\<lambda>(x, m). centre_entry x m) (zip r maf)) dat)"
proof -
  let ?m = "map fdouble maf"
  let ?s = "\<lambda>r. map (\<lambda>(x, y). fsub x y) (zip r ?m)"
  have 1: "mapE (\<lambda>r. sub_broadcast r ?m) dat = Inr (map ?s dat)"
    using assms by (intro mapE_Inr) (simp add: sub_broadcast_def)
  have 2: "mapE (\<lambda>r. sub_broadcast r ?m) (map ?s dat) = Inr (map ?s (map ?s dat))"
    using assms by (intro mapE_Inr) (auto simp: sub_broadcast_def)
  have 3: "map nan_to_zero (?s (?s r)) = map (\<lambda>(x, m). centre_entry x m) (zip r maf)"
    if "length r = length maf" for r
    using that
  proof (induction r maf rule: list_induct2)
    case Nil
    then show ?case by simp
  next
    case (Cons x xs y ys)
    then show ?case by (simp add: centre_entry_def)
  qed
  have "map (map nan_to_zero) (map ?s (map ?s dat)) =
          map (\<lambda>r. map (\<lambda>(x, m). centre_entry x m) (zip r maf)) dat"
    using assms 3 by simp
  then show ?thesis by (simp add: centre_SNPs_def 1 2)
qed

lemma centre_zero_maf:
  assumes "length r = length maf" "set maf \<subseteq> {Fin 0}"
  shows "map (\<lambda>(x, m). centre_entry x m) (zip r maf) = map nan_to_zero r"
  using assms
proof (induction r maf rule: list_induct2)
  case Nil
  then show ?case by simp
next
  case (Cons x xs y ys)
  then show ?case by (simp add: centre_entry_def)
qed

lemma centre_entry_not_nan:
  "\<forall>r\<in>set (map (\<lambda>r. map (\<lambda>(x, m). centre_entry x m) (zip r maf)) dat). \<forall>x\<in>set r. \<not> isnan x"
proof (intro ballI)
  fix r x
  assume "r \<in> set (map (\<lambda>r. map (\<lambda>(x, m). centre_entry x m) (zip r maf)) dat)" "x \<in> set r"
  then obtain r0 where "x \<in> set (map (\<lambda>(x, m). centre_entry x m) (zip r0 maf))" by auto
  then obtain p where "x = (case p of (x, m) \<Rightarrow> centre_entry x m)" by auto
  then show "\<not> isnan x" by (cases p) (simp add: centre_entry_def)
qed

text \<open>
  Claim C8, as the code has it. For every batch and frequency vector of the batch's
  width, \<open>centre_SNPs\<close> returns the batch with \<open>2 * MAF\<close> subtracted twice from every
  column and every not-a-number that results replaced by zero, so that no entry of the
  result is not-a-number. With a zero frequency vector the result is the input with its
  not-a-number entries replaced by zero: it is the input itself when that has no such
  entry.
\<close>

theorem centre_SNPs_subtracts_twice:
  assumes "\<forall>r\<in>set dat. length r = length maf"
  shows "centre_SNPs dat (Some maf) =
           Inr (map (\<lambda>r. map (\<lambda>(x, m). nan_to_zero (fsub (fsub x (fdouble m)) (fdouble m))) (zip r maf)) dat) \<and>
         (\<forall>out. centre_SNPs dat (Some maf) = Inr out \<longrightarrow> (\<forall>r\<in>set out. \<forall>x\<in>set r. \<not> isnan x)) \<and>
         (set maf \<subseteq> {Fin 0} \<longrightarrow> centre_SNPs dat (Some maf) = Inr (map (map nan_to_zero) dat)) \<and>
         (set maf \<subseteq> {Fin 0} \<and> (\<forall>r\<in>set dat. \<forall>x\<in>set r. \<not> isnan x) \<longrightarrow>
            centre_SNPs dat (Some maf) = Inr dat)"
proof (intro conjI allI impI)
  note rows = centre_SNPs_rows [OF assms]
  show "centre_SNPs dat (Some maf) =
           Inr (map (\<lambda>r. map (\<lambda>(x, m). nan_to_zero (fsub (fsub x (fdouble m)) (fdouble m))) (zip r maf)) dat)"
    unfolding rows centre_entry_def ..
  show "\<forall>r\<in>set out. \<forall>x\<in>set r. \<not> isnan x" if "centre_SNPs dat (Some maf) = Inr out" for out
  proof -
    from that rows have "out = map (\<lambda>r. map (\<lambda>(x, m). centre_entry x m) (zip r maf)) dat" by simp
    then show ?thesis using centre_entry_not_nan by blast
  qed
  have c: "centre_SNPs dat (Some maf) = Inr (map (map nan_to_zero) dat)" if "set maf \<subseteq> {Fin 0}"
  proof -
    have "map (\<lambda>r. map (\<lambda>(x, m). centre_entry x m) (zip r maf)) dat = map (map nan_to_zero) dat"
      by (rule map_cong [OF refl]) (use assms that in \<open>simp add: centre_zero_maf\<close>)
    with rows show ?thesis by simp
  qed
  show "centre_SNPs dat (Some maf) = Inr (map (map nan_to_zero) dat)" if "set maf \<subseteq> {Fin 0}"
    using that by (rule c)
  show "centre_SNPs dat (Some maf) = Inr dat"
    if h: "set maf \<subseteq> {Fin 0} \<and> (\<forall>r\<in>set dat. \<forall>x\<in>set r. \<not> isnan x)"
  proof -
    have rw: "map nan_to_zero r = r" if "r \<in> set dat" for r
      using h that by (intro map_idI nan_to_zero_id) blast
    have "map (map nan_to_zero) dat = dat" by (rule map_idI) (rule rw)
    with c h show ?thesis by simp
  qed
qed

theorem centre_SNPs_subtracts_twice_witness:
  "list_all (\<lambda>r. length r = length [Fin (1/4), Fin (1/2)]) [[Fin 1, Fin 2], [Fin 0, Fin 1]] \<and>
   centre_SNPs [[Fin 1, Fin 2], [Fin 0, Fin 1]] (Some [Fin (1/4), Fin (1/2)]) =
     Inr [[Fin 0, Fin 0], [Fin (-1), Fin (-1)]] \<and>
   list_all (\<lambda>r. length r = length [Fin 0, Fin 0]) [[Fin 1, PInf], [NaN, Fin 1]] \<and>
   set [Fin 0, Fin 0] \<subseteq> {Fin 0} \<and>
   centre_SNPs [[Fin 1, PInf], [NaN, Fin 1]] (Some [Fin 0, Fin 0]) = Inr [[Fin 1, PInf], [Fin 0, Fin 1]] \<and>
   list_all (list_all (\<lambda>x. \<not> isnan x)) [[Fin 1, PInf], [NInf, Fin 1]] \<and>
   centre_SNPs [[Fin 1, PInf], [NInf, Fin 1]] (Some [Fin 0, Fin 0]) = Inr [[Fin 1, PInf], [NInf, Fin 1]]"
proof -
  have h1: "\<forall>r\<in>set [[Fin 1, Fin 2], [Fin 0, Fin 1]]. length r = length [Fin (1/4), Fin (1/2)]" by simp
  have h2: "\<forall>r\<in>set [[Fin 1, PInf], [NaN, Fin 1]]. length r = length [Fin 0, Fin 0]" by simp
  have h3: "\<forall>r\<in>set [[Fin 1, PInf], [NInf, Fin 1]]. length r = length [Fin 0, Fin 0]" by simp
  have z: "set [Fin 0, Fin 0] \<subseteq> {Fin 0}" by simp
  have n: "\<forall>r\<in>set [[Fin 1, PInf], [NInf, Fin 1]]. \<forall>x\<in>set r. \<not> isnan x" by simp
  have r1: "centre_SNPs [[Fin 1, Fin 2], [Fin 0, Fin 1]] (Some [Fin (1/4), Fin (1/2)]) =
     Inr [[Fin 0, Fin 0], [Fin (-1), Fin (-1)]]"
    using centre_SNPs_subtracts_twice [OF h1, THEN conjunct1] by (simp add: nan_to_zero_def)
  have r2: "centre_SNPs [[Fin 1, PInf], [NaN, Fin 1]] (Some [Fin 0, Fin 0]) = Inr [[Fin 1, PInf], [Fin 0, Fin 1]]"
    using centre_SNPs_subtracts_twice [OF h2, THEN conjunct2, THEN conjunct2, THEN conjunct1, THEN mp, OF z]
    by (simp add: nan_to_zero_def)
  have r3: "centre_SNPs [[Fin 1, PInf], [NInf, Fin 1]] (Some [Fin 0, Fin 0]) = Inr [[Fin 1, PInf], [NInf, Fin 1]]"
    using centre_SNPs_subtracts_twice [OF h3, THEN conjunct2, THEN conjunct2, THEN conjunct2, THEN mp, OF conjI [OF z n]]
    by simp
  have l1: "list_all (\<lambda>r. length r = length [Fin (1/4), Fin (1/2)]) [[Fin 1, Fin 2], [Fin 0, Fin 1]]"
    by simp
  have l2: "list_all (\<lambda>r. length r = length [Fin 0, Fin 0]) [[Fin 1, PInf], [NaN, Fin 1]]"
    by simp
  have l3: "list_all (list_all (\<lambda>x. \<not> isnan x)) [[Fin 1, PInf], [NInf, Fin 1]]"
    by simp
  from l1 l2 l3 z r1 r2 r3 show ?thesis by blast
qed

text \<open>
  The claim as stated fails where the input has a not-a-number entry: under a zero
  frequency vector the entry comes back as zero, so the input is not returned unchanged.
\<close>

theorem centre_SNPs_zero_MAF_counterexample:
  "centre_SNPs [[NaN, Fin 1]] (Some [Fin 0, Fin 0]) = Inr [[Fin 0, Fin 1]] \<and>
   centre_SNPs [[NaN, Fin 1]] (Some [Fin 0, Fin 0]) \<noteq> Inr [[NaN, Fin 1]]"
  by code_simp

section \<open>Properties of the data splitter\<close>















section \<open>The split is reproducible\<close>

text \<open>
  Claim C6. \<open>data_split\<close> seeds the generator itself, so the index partition it draws
  depends on the sample count only: two runs on views with the same number of rows draw
  the same two index lists (and leave the generator in the same state), whatever state
  the generator was in before either run, and on the same views they return the same
  split. \<open>train_test_split\<close> draws in the state it finds:
  started in the state that a seed leaves, two runs with the same train fraction on
  views with the same number of rows draw the same index lists.
\<close>

theorem data_split_deterministic:
  assumes "dat \<noteq> []" "dat' \<noteq> []" "length (hd dat) = length (hd dat')"
  shows "data_split_indices env g dat = data_split_indices env g' dat' \<and>
         data_split env g dat split = data_split env g' dat split \<and>
         (train_size dm = train_size dm' \<and> dm_data dm = dat \<and> dm_data dm' = dat' \<longrightarrow>
            train_test_indices env (random_seed env seed) dm =
            train_test_indices env (random_seed env seed) dm')"
proof -
  from assms obtain v0 r0 v1 r1 where d: "dat = v0 # r0" "dat' = v1 # r1" "length v0 = length v1"
    by (cases dat; cases dat') auto
  have a: "data_split_indices env g dat = data_split_indices env g' dat'"
    by (simp add: data_split_indices_def d)
  have b: "data_split_indices env g dat = data_split_indices env g' dat"
    by (simp add: data_split_indices_def)
  have c: "data_split env g dat split = data_split env g' dat split"
    unfolding data_split_def b ..
  have e: "train_test_indices env (random_seed env seed) dm =
           train_test_indices env (random_seed env seed) dm'"
    if "train_size dm = train_size dm' \<and> dm_data dm = dat \<and> dm_data dm' = dat'"
    using that by (simp add: train_test_indices_def d)
  from a c e show ?thesis by blast
qed

theorem data_split_deterministic_witness:
  "two_views \<noteq> [] \<and> [[[Fin 8], [Fin 9]]] \<noteq> [] \<and> length (hd two_views) = length (hd [[[Fin 8], [Fin 9 :: fval]]]) \<and>
   data_split_indices toy 0 two_views = (Inr ([0], [1]), 43) \<and>
   data_split_indices toy 7 [[[Fin 8], [Fin 9]]] = (Inr ([0], [1]), 43) \<and>
   data_split_indices toy 0 two_views = data_split_indices toy 7 [[[Fin 8], [Fin 9]]] \<and>
   data_split toy 0 two_views (9 / 10) = data_split toy 7 two_views (9 / 10) \<and>
   train_size \<lparr>dm_data = two_views, dm_labels = None, train_size = 1 / 2\<rparr> =
     train_size \<lparr>dm_data = [[[Fin 8], [Fin 9]]], dm_labels = Some [1, 0], train_size = 1 / 2\<rparr> \<and>
   train_test_indices toy (random_seed toy 3) \<lparr>dm_data = two_views, dm_labels = None, train_size = 1 / 2\<rparr> =
     train_test_indices toy (random_seed toy 3)
       \<lparr>dm_data = [[[Fin 8], [Fin 9]]], dm_labels = Some [1, 0], train_size = 1 / 2\<rparr>"
proof -
  have h1: "two_views \<noteq> []" by (simp add: two_views_def)
  have h2: "[[[Fin 8], [Fin 9 :: fval]]] \<noteq> []" by simp
  have h3: "length (hd two_views) = length (hd [[[Fin 8], [Fin 9 :: fval]]])" by (simp add: two_views_def)
  have e1: "data_split_indices toy 0 two_views = (Inr ([0], [1]), 43)" by code_simp
  have e2: "data_split_indices toy 7 [[[Fin 8], [Fin 9]]] = (Inr ([0], [1]), 43)" by code_simp
  have h4: "train_size \<lparr>dm_data = two_views, dm_labels = None, train_size = 1 / 2\<rparr> =
     train_size \<lparr>dm_data = [[[Fin 8], [Fin 9]]], dm_labels = Some [1, 0], train_size = 1 / 2\<rparr>" by simp
  note t = data_split_deterministic [OF h1 h2 h3, where env = toy and g = 0 and g' = 7
      and split = "9 / 10" and seed = 3
      and dm = "\<lparr>dm_data = two_views, dm_labels = None, train_size = 1 / 2\<rparr>"
      and dm' = "\<lparr>dm_data = [[[Fin 8], [Fin 9]]], dm_labels = Some [1, 0], train_size = 1 / 2\<rparr>"]
  from t have t1: "data_split_indices toy 0 two_views = data_split_indices toy 7 [[[Fin 8], [Fin 9]]]"
    by (rule conjunct1)
  from t have t2: "data_split toy 0 two_views (9 / 10) = data_split toy 7 two_views (9 / 10)"
    by (elim conjE)
  from t h4 have t3: "train_test_indices toy (random_seed toy 3) \<lparr>dm_data = two_views, dm_labels = None, train_size = 1 / 2\<rparr> =
     train_test_indices toy (random_seed toy 3)
       \<lparr>dm_data = [[[Fin 8], [Fin 9]]], dm_labels = Some [1, 0], train_size = 1 / 2\<rparr>"
    by simp
  from h1 h2 h3 e1 e2 h4 t1 t2 t3 show ?thesis by blast
qed

section \<open>Properties of the batch generator factory\<close>

lemma loader_len_ceiling:
  assumes "0 < b"
  shows "loader_len n b = nat \<lceil>(of_nat n :: rat) / of_nat b\<rceil>"
proof -
  have "\<lceil>(of_nat n :: rat) / of_nat b\<rceil> = int (loader_len n b)"
  proof (rule ceiling_unique)
    have u: "n \<le> loader_len n b * b" using assms by (rule loader_len_upper)
    then have "(of_nat n :: rat) \<le> of_nat (loader_len n b * b)" by (simp only: of_nat_le_iff)
    then show "(of_nat n :: rat) / of_nat b \<le> of_int (int (loader_len n b))"
      using assms by (simp add: divide_le_eq)
    show "of_int (int (loader_len n b)) - 1 < (of_nat n :: rat) / of_nat b"
    proof (cases "n = 0")
      case True
      then show ?thesis by (simp add: loader_len_zero)
    next
      case False
      then have "(loader_len n b - 1) * b < n" using assms by (intro loader_len_lower) simp_all
      then have "(of_nat ((loader_len n b - 1) * b) :: rat) < of_nat n" by (simp only: of_nat_less_iff)
      moreover have "0 < loader_len n b" using assms False by (intro loader_len_pos) simp_all
      ultimately have "(of_nat (loader_len n b) - 1) * (of_nat b :: rat) < of_nat n"
        by (simp add: of_nat_diff)
      then show ?thesis using assms by (simp add: less_divide_eq)
    qed
  qed
  then show ?thesis by simp
qed

lemma in_batches_of:
  assumes "0 < b" "idx \<in> set (batches_of b xs)" "i \<in> set idx"
  shows "i \<in> set xs"
proof -
  from assms(2,3) have "i \<in> set (concat (batches_of b xs))" by auto
  then show ?thesis using assms(1) by (simp add: concat_batches_of)
qed

lemma dataset_batches_plain:
  assumes "0 < b"
  shows "dataset_batches (MyDataset v) b = map Inr (map Tensor (batches_of b v))"
    and "concat (map batch_data (map Tensor (batches_of b v))) = v"
    and "length (map Tensor (batches_of b v)) = loader_len (length v) b"
proof -
  show "dataset_batches (MyDataset v) b = map Inr (map Tensor (batches_of b v))"
    by (simp add: dataset_batches_def)
  have "map batch_data (map Tensor (batches_of b v)) = batches_of b v"
    by (simp add: comp_def)
  then show "concat (map batch_data (map Tensor (batches_of b v))) = v"
    using assms by (simp add: concat_batches_of)
  show "length (map Tensor (batches_of b v)) = loader_len (length v) b"
    using assms by (simp add: length_batches_of)
qed

lemma dataset_batches_labelled:
  assumes "0 < b" "length v \<le> length ls"
  defines "bs \<equiv> map (\<lambda>idx. Labelled (map ((!) v) idx) (map ((!) ls) idx)) (batches_of b [0 ..< length v])"
  shows "dataset_batches (MyDataset_labels v ls) b = map Inr bs"
    and "concat (map batch_data bs) = v"
    and "length bs = loader_len (length v) b"
proof -
  have col: "collate_labelled v ls idx = Inr (Labelled (map ((!) v) idx) (map ((!) ls) idx))"
    if "idx \<in> set (batches_of b [0 ..< length v])" for idx
  proof -
    have "\<forall>i\<in>set idx. i < length ls"
      using in_batches_of [OF assms(1) that] assms(2) by fastforce
    then have "mapE (\<lambda>i. if i < length ls then Inr (ls ! i) else Inl IndexError) idx = Inr (map ((!) ls) idx)"
      by (intro mapE_Inr) simp
    then show ?thesis by (simp add: collate_labelled_def)
  qed
  show "dataset_batches (MyDataset_labels v ls) b = map Inr bs"
    unfolding bs_def dataset_batches_def using col by simp
  have "map batch_data bs = map (map ((!) v)) (batches_of b [0 ..< length v])"
    by (simp add: bs_def comp_def)
  then have "concat (map batch_data bs) = map ((!) v) (concat (batches_of b [0 ..< length v]))"
    by (simp add: map_concat)
  also have "\<dots> = v" using assms(1) by (simp add: concat_batches_of map_nth)
  finally show "concat (map batch_data bs) = v" .
  show "length bs = loader_len (length v) b"
    using assms(1) by (simp add: bs_def length_batches_of)
qed


lemma generate_data_plain:
  assumes "\<not> SNP_model st"
    and "\<forall>v\<in>set views. 0 < (case batch_size st of Some b \<Rightarrow> b | None \<Rightarrow> length v)"
  shows "generate_data st views None =
           Inr (map (\<lambda>v. DataLoader (MyDataset v) (case batch_size st of Some b \<Rightarrow> b | None \<Rightarrow> length v)) views)"
  using assms unfolding generate_data_def
  by (simp add: new_DataLoader_def mapE_Inr)

lemma generate_data_labelled:
  assumes "\<not> SNP_model st"
    and "\<forall>v\<in>set views. 0 < (case batch_size st of Some b \<Rightarrow> b | None \<Rightarrow> length v)"
  shows "generate_data st views (Some ls) =
           Inr (map (\<lambda>v. DataLoader (MyDataset_labels v ls) (case batch_size st of Some b \<Rightarrow> b | None \<Rightarrow> length v)) views)"
  using assms unfolding generate_data_def
  by (simp add: new_DataLoader_def mapE_Inr)

lemma dataset_batches_view:
  assumes sz: "0 < b"
    and lb: "case lbls of None \<Rightarrow> True | Some ls \<Rightarrow> length v \<le> length ls"
  obtains bs where
    "dataset_batches (case lbls of None \<Rightarrow> MyDataset v | Some ls \<Rightarrow> MyDataset_labels v ls) b = map Inr bs"
    "concat (map batch_data bs) = v" "length bs = loader_len (length v) b"
proof (cases lbls)
  case None
  show ?thesis
    by (rule that [of "map Tensor (batches_of b v)"])
      (simp_all only: None option.case dataset_batches_plain [OF sz])
next
  case (Some ls)
  with lb have l: "length v \<le> length ls" by simp
  show ?thesis
    by (rule that [of "map (\<lambda>idx. Labelled (map ((!) v) idx) (map ((!) ls) idx)) (batches_of b [0 ..< length v])"])
      (simp_all only: Some option.case dataset_batches_labelled [OF sz l])
qed

lemma view_batches:
  assumes sz: "0 < (case bsz of Some b \<Rightarrow> b | None \<Rightarrow> length v)"
    and lb: "case lbls of None \<Rightarrow> True | Some ls \<Rightarrow> length v \<le> length ls"
  shows "\<exists>bs. loader_batches env
                 (DataLoader (case lbls of None \<Rightarrow> MyDataset v | Some ls \<Rightarrow> MyDataset_labels v ls)
                    (case bsz of Some b \<Rightarrow> b | None \<Rightarrow> length v)) = map Inr bs \<and>
              concat (map batch_data bs) = v \<and>
              length bs = (case bsz of Some b \<Rightarrow> nat \<lceil>(of_nat (length v) :: rat) / of_nat b\<rceil> | None \<Rightarrow> 1) \<and>
              (bsz = None \<longrightarrow> map batch_data bs = [v])"
proof -
  define b where "b = (case bsz of Some b \<Rightarrow> b | None \<Rightarrow> length v)"
  define ds where "ds = (case lbls of None \<Rightarrow> MyDataset v | Some ls \<Rightarrow> MyDataset_labels v ls)"
  from sz have pos: "0 < b" by (simp add: b_def)
  from dataset_batches_view [OF pos lb]
  obtain bs where bs: "dataset_batches ds b = map Inr bs" "concat (map batch_data bs) = v"
    "length bs = loader_len (length v) b" unfolding ds_def by metis
  have len: "length bs = (case bsz of Some b \<Rightarrow> nat \<lceil>(of_nat (length v) :: rat) / of_nat b\<rceil> | None \<Rightarrow> 1)"
  proof (cases bsz)
    case None
    with pos have "0 < length v" "b = length v" by (simp_all add: b_def)
    then have "loader_len (length v) b = 1" by (intro loader_len_small) simp_all
    with bs(3) None show ?thesis by simp
  next
    case (Some b')
    then have "b = b'" by (simp add: b_def)
    with pos bs(3) Some show ?thesis by (simp add: loader_len_ceiling)
  qed
  have one: "map batch_data bs = [v]" if "bsz = None"
  proof -
    from len that have "length bs = 1" by simp
    then obtain x where "bs = [x]" by (cases bs) auto
    with bs(2) show ?thesis by simp
  qed
  have lo: "loader_batches env (DataLoader ds b) = map Inr bs"
    using bs(1) by (simp add: loader_batches_def)
  show ?thesis
    unfolding b_def [symmetric] ds_def [symmetric]
  proof (intro exI conjI impI)
    show "loader_batches env (DataLoader ds b) = map Inr bs" by (rule lo)
    show "concat (map batch_data bs) = v" by (rule bs(2))
    show "length bs = (case bsz of Some b \<Rightarrow> nat \<lceil>(of_nat (length v) :: rat) / of_nat b\<rceil> | None \<Rightarrow> 1)"
      by (rule len)
    show "map batch_data bs = [v]" if "bsz = None" using that by (rule one)
  qed
qed

text \<open>
  Claim C5, as the code has it. For a model that is not a genetic-variant model, views
  whose labels (when there are labels) reach to the last sample, and either a fixed
  batch size \<open>b \<ge> 1\<close> or the whole-dataset policy on views that are not empty:
  \<open>generate_data\<close> returns one generator per view; every batch of the generator of
  view \<open>i\<close> is fetched without an exception; the samples of its batches, put one after
  the other, are the samples of view \<open>i\<close> in their order; there are \<open>ceil(n / b)\<close>
  batches for a view of \<open>n\<close> samples, and under the whole-dataset policy exactly one,
  which holds the whole view.
\<close>

theorem generate_data_batches:
  assumes snp: "\<not> SNP_model st"
    and sz: "case batch_size st of Some b \<Rightarrow> 0 < b | None \<Rightarrow> list_all (\<lambda>v. v \<noteq> []) views"
    and lb: "case lbls of None \<Rightarrow> True | Some ls \<Rightarrow> list_all (\<lambda>v. length v \<le> length ls) views"
  shows "\<exists>generators.
           generate_data st views lbls = Inr generators \<and> length generators = length views \<and>
           (\<forall>i<length views. \<exists>bs.
              loader_batches env (generators ! i) = map Inr bs \<and>
              concat (map batch_data bs) = views ! i \<and>
              length bs = (case batch_size st of
                             Some b \<Rightarrow> nat \<lceil>(of_nat (length (views ! i)) :: rat) / of_nat b\<rceil>
                           | None \<Rightarrow> 1) \<and>
              (batch_size st = None \<longrightarrow> map batch_data bs = [views ! i]))"
proof -
  let ?b = "\<lambda>v. case batch_size st of Some b \<Rightarrow> b | None \<Rightarrow> length v"
  let ?ds = "\<lambda>v. case lbls of None \<Rightarrow> MyDataset v | Some ls \<Rightarrow> MyDataset_labels v ls"
  let ?gens = "map (\<lambda>v. DataLoader (?ds v) (?b v)) views"
  have pos: "\<forall>v\<in>set views. 0 < ?b v"
    using sz by (cases "batch_size st") (auto simp: list_all_iff)
  have gd: "generate_data st views lbls = Inr ?gens"
  proof (cases lbls)
    case None
    with generate_data_plain [OF snp pos] show ?thesis by simp
  next
    case (Some ls)
    with generate_data_labelled [OF snp pos, of ls] show ?thesis by simp
  qed
  have each: "\<exists>bs. loader_batches env (?gens ! i) = map Inr bs \<and>
              concat (map batch_data bs) = views ! i \<and>
              length bs = (case batch_size st of
                             Some b \<Rightarrow> nat \<lceil>(of_nat (length (views ! i)) :: rat) / of_nat b\<rceil>
                           | None \<Rightarrow> 1) \<and>
              (batch_size st = None \<longrightarrow> map batch_data bs = [views ! i])"
    if i: "i < length views" for i
  proof -
    from i have mem: "views ! i \<in> set views" by simp
    with pos have p: "0 < ?b (views ! i)" by blast
    have l: "case lbls of None \<Rightarrow> True | Some ls \<Rightarrow> length (views ! i) \<le> length ls"
      using lb mem by (cases lbls) (auto simp: list_all_iff)
    from view_batches [OF p l, of env] i show ?thesis by simp
  qed
  from gd each show ?thesis by (intro exI [of _ ?gens]) simp
qed

theorem generate_data_batches_witness:
  "\<not> SNP_model (model0\<lparr>batch_size := Some 2\<rparr>) \<and>
   generate_data (model0\<lparr>batch_size := Some 2\<rparr>) [[[Fin 1], [Fin 2], [Fin 3]]] (Some [7, 8, 9]) =
     Inr [DataLoader (MyDataset_labels [[Fin 1], [Fin 2], [Fin 3]] [7, 8, 9]) 2] \<and>
   loader_batches toy (DataLoader (MyDataset_labels [[Fin 1], [Fin 2], [Fin 3]] [7, 8, 9]) 2) =
     [Inr (Labelled [[Fin 1], [Fin 2]] [7, 8]), Inr (Labelled [[Fin 3]] [9])] \<and>
   nat \<lceil>(of_nat 3 :: rat) / of_nat 2\<rceil> = 2 \<and>
   (\<exists>generators.
      generate_data (model0\<lparr>batch_size := Some 2\<rparr>) [[[Fin 1], [Fin 2], [Fin 3]]] (Some [7, 8, 9]) =
        Inr generators \<and>
      length generators = length [[[Fin 1 :: fval], [Fin 2], [Fin 3]]] \<and>
      (\<forall>i<length [[[Fin 1 :: fval], [Fin 2], [Fin 3]]]. \<exists>bs.
         loader_batches toy (generators ! i) = map Inr bs \<and>
         concat (map batch_data bs) = [[[Fin 1], [Fin 2], [Fin 3]]] ! i \<and>
         length bs = (case batch_size (model0\<lparr>batch_size := Some 2\<rparr>) of
                        Some b \<Rightarrow> nat \<lceil>(of_nat (length ([[[Fin 1 :: fval], [Fin 2], [Fin 3]]] ! i)) :: rat) / of_nat b\<rceil>
                      | None \<Rightarrow> 1) \<and>
         (batch_size (model0\<lparr>batch_size := Some 2\<rparr>) = None \<longrightarrow>
            map batch_data bs = [[[[Fin 1], [Fin 2], [Fin 3]]] ! i]))) \<and>
   \<not> SNP_model (model0\<lparr>batch_size := None\<rparr>) \<and> batch_size (model0\<lparr>batch_size := None\<rparr>) = None \<and>
   list_all (\<lambda>v. v \<noteq> []) two_views \<and>
   generate_data (model0\<lparr>batch_size := None\<rparr>) two_views None =
     Inr [DataLoader (MyDataset [[Fin 1, Fin 2], [Fin 3, Fin 4]]) 2, DataLoader (MyDataset [[Fin 5], [Fin 6]]) 2] \<and>
   map (loader_batches toy)
     [DataLoader (MyDataset [[Fin 1, Fin 2], [Fin 3, Fin 4]]) 2, DataLoader (MyDataset [[Fin 5], [Fin 6]]) 2] =
     [[Inr (Tensor [[Fin 1, Fin 2], [Fin 3, Fin 4]])], [Inr (Tensor [[Fin 5], [Fin 6]])]] \<and>
   (\<exists>generators.
      generate_data (model0\<lparr>batch_size := None\<rparr>) two_views None = Inr generators \<and>
      length generators = length two_views \<and>
      (\<forall>i<length two_views. \<exists>bs.
         loader_batches toy (generators ! i) = map Inr bs \<and>
         concat (map batch_data bs) = two_views ! i \<and>
         length bs = (case batch_size (model0\<lparr>batch_size := None\<rparr>) of
                        Some b \<Rightarrow> nat \<lceil>(of_nat (length (two_views ! i)) :: rat) / of_nat b\<rceil>
                      | None \<Rightarrow> 1) \<and>
         (batch_size (model0\<lparr>batch_size := None\<rparr>) = None \<longrightarrow> map batch_data bs = [two_views ! i])))"
proof -
  have a1: "\<not> SNP_model (model0\<lparr>batch_size := Some 2\<rparr>)" by (simp add: model0_def)
  have a2: "case batch_size (model0\<lparr>batch_size := Some 2\<rparr>) of
              Some b \<Rightarrow> 0 < b
            | None \<Rightarrow> list_all (\<lambda>v. v \<noteq> []) [[[Fin 1 :: fval], [Fin 2], [Fin 3]]]" by simp
  have a3: "case Some [7, 8, 9 :: int] of None \<Rightarrow> True
            | Some ls \<Rightarrow> list_all (\<lambda>v. length v \<le> length ls) [[[Fin 1 :: fval], [Fin 2], [Fin 3]]]" by simp
  have e1: "generate_data (model0\<lparr>batch_size := Some 2\<rparr>) [[[Fin 1], [Fin 2], [Fin 3]]] (Some [7, 8, 9]) =
     Inr [DataLoader (MyDataset_labels [[Fin 1], [Fin 2], [Fin 3]] [7, 8, 9]) 2]" by code_simp
  have e2: "loader_batches toy (DataLoader (MyDataset_labels [[Fin 1], [Fin 2], [Fin 3]] [7, 8, 9]) 2) =
     [Inr (Labelled [[Fin 1], [Fin 2]] [7, 8]), Inr (Labelled [[Fin 3]] [9])]" by code_simp
  have "\<lceil>(of_nat 3 :: rat) / of_nat 2\<rceil> = 2" by (rule ceiling_unique) simp_all
  then have e3: "nat \<lceil>(of_nat 3 :: rat) / of_nat 2\<rceil> = 2" by simp
  have b1: "\<not> SNP_model (model0\<lparr>batch_size := None\<rparr>)" by (simp add: model0_def)
  have b0: "batch_size (model0\<lparr>batch_size := None\<rparr>) = None" by simp
  have b2': "list_all (\<lambda>v. v \<noteq> []) two_views" by (simp add: two_views_def)
  have b2: "case batch_size (model0\<lparr>batch_size := None\<rparr>) of
              Some b \<Rightarrow> 0 < b | None \<Rightarrow> list_all (\<lambda>v. v \<noteq> []) two_views"
    using b2' by simp
  have b3: "case None :: int list option of None \<Rightarrow> True
            | Some ls \<Rightarrow> list_all (\<lambda>v. length v \<le> length ls) two_views" by simp
  have e4: "generate_data (model0\<lparr>batch_size := None\<rparr>) two_views None =
     Inr [DataLoader (MyDataset [[Fin 1, Fin 2], [Fin 3, Fin 4]]) 2, DataLoader (MyDataset [[Fin 5], [Fin 6]]) 2]"
    by code_simp
  have e5: "map (loader_batches toy)
     [DataLoader (MyDataset [[Fin 1, Fin 2], [Fin 3, Fin 4]]) 2, DataLoader (MyDataset [[Fin 5], [Fin 6]]) 2] =
     [[Inr (Tensor [[Fin 1, Fin 2], [Fin 3, Fin 4]])], [Inr (Tensor [[Fin 5], [Fin 6]])]]"
    by code_simp
  note t1 = generate_data_batches [OF a1 a2 a3, where env = toy]
  note t2 = generate_data_batches [OF b1 b2 b3, where env = toy]
  show ?thesis
    using a1 e1 e2 e3 t1 b1 b0 b2' e4 e5 t2 by (intro conjI) assumption+
qed

text \<open>
  The claim as stated fails under the whole-dataset policy for a view without samples:
  the batch size is then the view's sample count 0, which the data loader refuses, so
  that there is no generator and no batch.
\<close>

theorem generate_data_whole_dataset_counterexample:
  "generate_data (model0\<lparr>batch_size := None\<rparr>) [[]] None = Inl ValueError"
  by code_simp

text \<open>
  The genetic-variant branch, left out above, builds its adapters on the sequence of all
  views and on one another, not on the single views.
\<close>

lemma generate_data_SNPs_wraps_sequence:
  "generate_data (model0\<lparr>SNP_model := True\<rparr>) two_views None =
     Inr [DataLoader_SNPs (ViewSeq two_views) (Some 1),
          DataLoader_SNPs (Wrapped (ViewSeq two_views)) (Some 1)]"
  by code_simp

section \<open>Prediction is repeatable\<close>
















section \<open>Properties of the logger\<close>

lemma log_append_distinct:
  assumes "distinct (map fst lg)" "k \<in> set (map fst lg)"
  shows "log_append k v lg = Inr (map (\<lambda>(k', h). (k', if k' = k then h @ [v] else h)) lg)"
  using assms
proof (induction lg)
  case Nil
  then show ?case by simp
next
  case (Cons p lg)
  obtain k' h where p: "p = (k', h)" by (cases p)
  show ?case
  proof (cases "k = k'")
    case True
    with Cons.prems p have "k \<notin> set (map fst lg)" by auto
    then have "map (\<lambda>(k', h). (k', if k' = k then h @ [v] else h)) lg = lg"
      by (intro map_idI) (auto simp: rev_image_eqI)
    with True p show ?thesis by simp
  next
    case False
    with Cons.prems p have "distinct (map fst lg)" "k \<in> set (map fst lg)" by auto
    with Cons.IH have "log_append k v lg = Inr (map (\<lambda>(k', h). (k', if k' = k then h @ [v] else h)) lg)"
      by simp
    with False p show ?thesis by simp
  qed
qed

lemma log_append_all_distinct:
  assumes "distinct (map fst lg)" "set (map fst items) \<subseteq> set (map fst lg)"
  shows "log_append_all items lg =
           Inr (map (\<lambda>(k', h). (k', h @ map snd (filter (\<lambda>p. fst p = k') items))) lg)"
  using assms
proof (induction items arbitrary: lg)
  case Nil
  then show ?case by (simp add: case_prod_beta)
next
  case (Cons p items)
  obtain k v where p: "p = (k, v)" by (cases p)
  let ?lg1 = "map (\<lambda>(k', h). (k', if k' = k then h @ [v] else h)) lg"
  from Cons.prems p have 1: "log_append k v lg = Inr ?lg1"
    by (intro log_append_distinct) auto
  have keys: "map fst ?lg1 = map fst lg" by (simp add: comp_def case_prod_beta)
  from Cons.prems have "distinct (map fst ?lg1)" "set (map fst items) \<subseteq> set (map fst ?lg1)"
    unfolding keys by simp_all
  from Cons.IH [OF this]
  have "log_append_all items ?lg1 =
          Inr (map (\<lambda>(k', h). (k', h @ map snd (filter (\<lambda>p. fst p = k') items))) ?lg1)" .
  also have "map (\<lambda>(k', h). (k', h @ map snd (filter (\<lambda>p. fst p = k') items))) ?lg1 =
             map (\<lambda>(k', h). (k', h @ map snd (filter (\<lambda>p. fst p = k') ((k, v) # items)))) lg"
    by (simp add: comp_def case_prod_beta)
  finally show ?case using 1 p by simp
qed

lemma filter_key_distinct:
  assumes "distinct (map fst items)" "k \<in> set (map fst items)"
  shows "length (filter (\<lambda>p. fst p = k) items) = 1"
  using assms
proof (induction items)
  case Nil
  then show ?case by simp
next
  case (Cons p items)
  show ?case
  proof (cases "fst p = k")
    case True
    with Cons.prems have "k \<notin> fst ` set items" by auto
    then have "filter (\<lambda>p. fst p = k) items = []" by (auto simp: filter_empty_conv)
    with True show ?thesis by simp
  next
    case False
    with Cons show ?thesis by auto
  qed
qed

lemma on_step_fi_uniform:
  assumes lg: "uniform_logger keys j lg" and d: "distinct keys" and l: "map fst loss = keys"
    and r: "on_step_fi loss lg = Inr lg'"
  shows "uniform_logger keys (Suc j) lg'"
proof -
  from lg have k: "map fst (logs lg) = keys" and u: "list_all (\<lambda>h. length h = j) (map snd (logs lg))"
    by (simp_all add: uniform_logger_def)
  have "log_append_all loss (logs lg) =
          Inr (map (\<lambda>(k', h). (k', h @ map snd (filter (\<lambda>p. fst p = k') loss))) (logs lg))"
    using d k l by (intro log_append_all_distinct) simp_all
  with r have lg': "logs lg' = map (\<lambda>(k', h). (k', h @ map snd (filter (\<lambda>p. fst p = k') loss))) (logs lg)"
    by (auto simp: on_step_fi_def)
  have keys': "map fst (logs lg') = keys"
    using k by (simp add: lg' comp_def case_prod_beta)
  have "length (snd e) = Suc j" if "e \<in> set (logs lg')" for e
  proof -
    from that lg' obtain k' h where e: "e = (k', h @ map snd (filter (\<lambda>p. fst p = k') loss))"
      and m: "(k', h) \<in> set (logs lg)" by auto
    from m u have "length h = j" by (auto simp: list_all_iff)
    moreover from m k have "k' \<in> set keys" by force
    with d l have "length (filter (\<lambda>p. fst p = k') loss) = 1" by (intro filter_key_distinct) simp_all
    ultimately show ?thesis using e by simp
  qed
  then have "list_all (\<lambda>h. length h = Suc j) (map snd (logs lg'))"
    by (auto simp: list_all_iff)
  with keys' show ?thesis by (simp add: uniform_logger_def)
qed

lemma on_train_init_uniform: "uniform_logger keys 0 (on_train_init keys)"
  by (simp add: uniform_logger_def on_train_init_def comp_def list_all_iff)


section \<open>The logger of a training run\<close>

lemma optimise_batch_keys:
  assumes "\<forall>p lb f. map fst (loss_function env p lb f) = keys"
    and "optimise_batch env st lb = (Inr l, st')"
  shows "map fst l = keys"
  using assms by (auto simp: optimise_batch_def Let_def split: option.splits)

lemma validate_batch_keys:
  assumes "\<forall>p lb f. map fst (loss_function env p lb f) = keys"
    and "validate_batch env st lb = (Inr l, st')"
  shows "map fst l = keys"
  using assms by (auto simp: validate_batch_def Let_def)

lemma iterate_step_keys:
  assumes K: "\<forall>p lb f. map fst (loss_function env p lb f) = keys"
    and r: "iterate_step env (optimise_batch env) tup st = (Inr l, st')"
  shows "map fst l = keys"
proof -
  from r obtain s lb where "validate_batch env s lb = (Inr l, st') \<or> optimise_batch env s lb = (Inr l, st')"
    unfolding iterate_step_def by (auto split: sum.splits if_splits)
  then show ?thesis using K by (auto dest: validate_batch_keys optimise_batch_keys)
qed

lemma iterate_rounds_keys:
  assumes K: "\<forall>p lb f. map fst (loss_function env p lb f) = keys"
  shows "iterate_rounds env (optimise_batch env) rounds prev st = (Inr l, st') \<Longrightarrow>
         (case prev of None \<Rightarrow> True | Some l0 \<Rightarrow> map fst l0 = keys) \<Longrightarrow> map fst l = keys"
proof (induction rounds arbitrary: prev st)
  case Nil
  then show ?case by (cases prev) auto
next
  case (Cons r rounds)
  show ?case
  proof (cases r)
    case (Inl e)
    with Cons.prems show ?thesis by simp
  next
    case (Inr tup)
    obtain res s1 where step: "iterate_step env (optimise_batch env) tup st = (res, s1)"
      by (cases "iterate_step env (optimise_batch env) tup st")
    show ?thesis
    proof (cases res)
      case (Inl e)
      with Cons.prems Inr step show ?thesis by simp
    next
      case l1: (Inr l1)
      with step K have "map fst l1 = keys" by (auto dest: iterate_step_keys)
      moreover from Cons.prems(1) Inr step l1
      have "iterate_rounds env (optimise_batch env) rounds (Some l1) s1 = (Inr l, st')" by simp
      ultimately show ?thesis using Cons.IH [of "Some l1" s1] by simp
    qed
  qed
qed

lemma train_pass_keys:
  assumes K: "\<forall>p lb f. map fst (loss_function env p lb f) = keys"
    and r: "train_pass env (optimise_batch env) gens dat st = (Inr l, st')"
  shows "map fst l = keys"
proof -
  from r have "(\<exists>gs. iterate_rounds env (optimise_batch env) (zip_star (map (loader_batches env) gs)) None st = (Inr l, st'))
      \<or> (\<exists>s d. optimise_batch env s d = (Inr l, st'))"
    unfolding train_pass_def iterate_batch_def by (auto split: option.splits)
  then show ?thesis
    using K by (auto dest: optimise_batch_keys iterate_rounds_keys [OF K])
qed

lemma val_pass_keys:
  assumes K: "\<forall>p lb f. map fst (loss_function env p lb f) = keys"
    and r: "val_pass env (optimise_batch env) gens dat st = (Inr l, st')"
  shows "map fst l = keys"
proof -
  from r have "(\<exists>gs. iterate_rounds env (optimise_batch env) (zip_star (map (loader_batches env) gs)) None st = (Inr l, st'))
      \<or> (\<exists>s d. validate_batch env s d = (Inr l, st'))"
    unfolding val_pass_def iterate_batch_def by (auto split: option.splits)
  then show ?thesis
    using K by (auto dest: validate_batch_keys iterate_rounds_keys [OF K])
qed

lemma optimise_epochs_step:
  assumes "optimise_epochs env opt g dt vg vd (epoch # later) logger st = (Inr lg, st')"
  obtains loss s1 lg1 s2 where
    "train_pass env opt g dt (init_optimisation st) = (Inr loss, s1)"
    "log_epoch epoch loss logger = Inr lg1"
    "optimise_epochs env opt g dt vg vd later (Some lg1) s2 = (Inr lg, st')"
proof -
  obtain res s1 where tp: "train_pass env opt g dt (init_optimisation st) = (res, s1)"
    by (cases "train_pass env opt g dt (init_optimisation st)")
  with assms obtain loss where loss: "res = Inr loss" by (cases res) auto
  from assms tp loss obtain lg1 where le: "log_epoch epoch loss logger = Inr lg1"
    by (cases "log_epoch epoch loss logger") auto
  show ?thesis
  proof (cases "val_set s1")
    case False
    with assms tp loss le have "optimise_epochs env opt g dt vg vd later (Some lg1) s1 = (Inr lg, st')"
      by simp
    with tp loss le show ?thesis by (intro that) simp_all
  next
    case True
    obtain vres s2 where vp: "val_pass env opt vg vd s1 = (vres, s2)"
      by (cases "val_pass env opt vg vd s1")
    with assms tp loss le True obtain vloss where vl: "vres = Inr vloss" by (cases vres) auto
    from assms tp loss le True vp vl obtain vlg where
      vle: "log_epoch epoch vloss (val_logger s2) = Inr vlg"
      by (cases "log_epoch epoch vloss (val_logger s2)") auto
    from assms tp loss le True vp vl vle
    have "optimise_epochs env opt g dt vg vd later (Some lg1) (s2\<lparr>val_logger := Some vlg\<rparr>) = (Inr lg, st')"
      by simp
    with tp loss le show ?thesis by (intro that) simp_all
  qed
qed

lemma optimise_epochs_later:
  assumes K: "\<forall>p lb f. map fst (loss_function env p lb f) = keys" and d: "distinct keys"
  shows "optimise_epochs env (optimise_batch env) g dt vg vd epochs (Some lg0) st = (Inr lg, st') \<Longrightarrow>
         1 \<notin> set epochs \<Longrightarrow> uniform_logger keys j lg0 \<Longrightarrow>
         uniform_logger keys (j + length epochs) lg"
proof (induction epochs arbitrary: lg0 st j)
  case Nil
  then show ?case by simp
next
  case (Cons epoch later)
  from Cons.prems(1) obtain loss s1 lg1 s2 where
    tp: "train_pass env (optimise_batch env) g dt (init_optimisation st) = (Inr loss, s1)" and
    le: "log_epoch epoch loss (Some lg0) = Inr lg1" and
    rest: "optimise_epochs env (optimise_batch env) g dt vg vd later (Some lg1) s2 = (Inr lg, st')"
    by (rule optimise_epochs_step)
  from tp K have keys: "map fst loss = keys" by (rule train_pass_keys [rotated])
  from Cons.prems(2) have ne: "epoch \<noteq> 1" "1 \<notin> set later" by auto
  from le ne have "on_step_fi loss lg0 = Inr lg1" by (simp add: log_epoch_def)
  with Cons.prems(3) d keys have "uniform_logger keys (Suc j) lg1" by (intro on_step_fi_uniform)
  from Cons.IH [OF rest ne(2) this] show ?case by simp
qed

lemma optimise_epochs_range:
  assumes K: "\<forall>p lb f. map fst (loss_function env p lb f) = keys" and d: "distinct keys"
    and r: "optimise_epochs env (optimise_batch env) g dt vg vd [1 ..< n + 1] None st = (Inr lg, st')"
  shows "1 \<le> n \<and> uniform_logger keys (n - 1) lg"
proof (cases n)
  case 0
  with r show ?thesis by simp
next
  case (Suc m)
  have e: "[1 ..< n + 1] = 1 # [Suc 1 ..< n + 1]"
    by (rule upt_conv_Cons) (simp add: Suc)
  from r [unfolded e] obtain loss s1 lg1 s2 where
    tp: "train_pass env (optimise_batch env) g dt (init_optimisation st) = (Inr loss, s1)" and
    le: "log_epoch 1 loss None = Inr lg1" and
    rest: "optimise_epochs env (optimise_batch env) g dt vg vd [Suc 1 ..< n + 1] (Some lg1) s2 = (Inr lg, st')"
    by (rule optimise_epochs_step)
  from tp K have keys: "map fst loss = keys" by (rule train_pass_keys [rotated])
  with le have "uniform_logger keys 0 lg1"
    using on_train_init_uniform [of keys] by (simp add: log_epoch_def)
  have "1 \<notin> set [Suc 1 ..< n + 1]" by simp
  from optimise_epochs_later [OF K d rest this \<open>uniform_logger keys 0 lg1\<close>]
  have u: "uniform_logger keys (0 + length [Suc 1 ..< n + 1]) lg" .
  have "0 + length [Suc 1 ..< n + 1] = n - 1" unfolding length_upt by simp
  with u have "uniform_logger keys (n - 1) lg" by (simp only:)
  with Suc show ?thesis by simp
qed

lemma optimise_uniform:
  assumes K: "\<forall>p lb f. map fst (loss_function env p lb f) = keys" and d: "distinct keys"
    and r: "optimise env (optimise_batch env) gens dat st = (Inr lg, st')"
  shows "1 \<le> n_epochs st \<and> uniform_logger keys (n_epochs st - 1) lg"
proof -
  from r obtain g dt vg vd where
    "optimise_epochs env (optimise_batch env) g dt vg vd [1 ..< n_epochs st + 1] None st = (Inr lg, st')"
    unfolding optimise_def Let_def
    by (auto split: if_splits option.splits generators_arg.splits data_arg.splits list.splits)
  with K d show ?thesis by (rule optimise_epochs_range)
qed

lemma fit_generators_n_epochs:
  "fit_generators env st = (r, st') \<Longrightarrow> n_epochs st' = n_epochs st"
  unfolding fit_generators_def by (auto split: if_splits prod.splits sum.splits)

text \<open>
  Claim C3, as the code has it, for the standard family with loss records that all have
  the same field names \<open>keys\<close>, each once. When \<open>fit\<close> returns a logger, the run had at
  least one epoch, the logger has one series per field name of the loss record, and
  every series has as many entries as there were epochs after the first: the first
  epoch creates the logger from the field names and appends nothing, every later epoch
  appends its loss record.
\<close>

theorem fit_logger_entries:
  assumes K: "\<forall>p lb f. map fst (loss_function env p lb f) = keys" and d: "distinct keys"
    and r: "fit env (optimise_batch env) args st = (Inr lg, st')"
  shows "1 \<le> arg_n_epochs args \<and> map fst (logs lg) = keys \<and>
         list_all (\<lambda>h. length h = arg_n_epochs args - 1) (map snd (logs lg))"
proof -
  define st0 where "st0 = st\<lparr>use_GPU := arg_use_GPU args, save_model := arg_save_model args,
                   output_path := arg_output_path args, n_epochs := arg_n_epochs args,
                   data := arg_data args, labels := arg_labels args,
                   MAF_file := arg_MAF_file args, val_set := arg_val_set args\<rparr>"
  obtain gr st1 where fg: "fit_generators env st0 = (gr, st1)" by (cases "fit_generators env st0")
  then have n: "n_epochs st1 = arg_n_epochs args"
    by (auto dest: fit_generators_n_epochs simp: st0_def)
  from r fg obtain gens dat st2 where
    "optimise env (optimise_batch env) gens dat st1 = (Inr lg, st2)"
    unfolding fit_def Let_def st0_def [symmetric]
    by (auto split: sum.splits prod.splits if_splits)
  from optimise_uniform [OF K d this] n show ?thesis by (simp add: uniform_logger_def)
qed


theorem fit_logger_entries_witness:
  "(\<forall>p lb f. map fst (loss_function toy p lb f) = [''total'', ''kl'']) \<and>
   distinct [''total'', ''kl''] \<and>
   fst (fit toy (optimise_batch toy) scenario_args scenario_model) =
     Inr (Logger [(''total'', [Fin 7]), (''kl'', [Fin 0])]) \<and>
   arg_n_epochs scenario_args = 2 \<and>
   map fst (logs (Logger [(''total'', [Fin 7]), (''kl'', [Fin 0])])) = [''total'', ''kl''] \<and>
   list_all (\<lambda>h. length h = arg_n_epochs scenario_args - 1)
     (map snd (logs (Logger [(''total'', [Fin 7]), (''kl'', [Fin 0])])))"
proof -
  have K: "\<forall>p lb f. map fst (loss_function toy p lb f) = [''total'', ''kl'']"
    by (simp add: toy_def)
  have d: "distinct [''total'', ''kl'']" by simp
  have e: "fst (fit toy (optimise_batch toy) scenario_args scenario_model) =
     Inr (Logger [(''total'', [Fin 7]), (''kl'', [Fin 0])])"
    by code_simp
  have n: "arg_n_epochs scenario_args = 2" by (simp add: scenario_args_def)
  from e have r: "fit toy (optimise_batch toy) scenario_args scenario_model =
     (Inr (Logger [(''total'', [Fin 7]), (''kl'', [Fin 0])]),
      snd (fit toy (optimise_batch toy) scenario_args scenario_model))"
    by (simp add: prod_eq_iff)
  note t = fit_logger_entries [OF K d r]
  from t have t1: "map fst (logs (Logger [(''total'', [Fin 7]), (''kl'', [Fin 0])])) = [''total'', ''kl'']"
    by (elim conjE)
  from t have t2: "list_all (\<lambda>h. length h = arg_n_epochs scenario_args - 1)
     (map snd (logs (Logger [(''total'', [Fin 7]), (''kl'', [Fin 0])])))"
    by (elim conjE)
  show ?thesis using K d e n t1 t2 by (intro conjI) assumption+
qed

text \<open>
  The claim as stated fails in the scenario of the spec: after two epochs on two views
  of 100 samples in batches of 25, every series of the returned logger has one entry,
  not two.
\<close>

theorem fit_logger_entries_counterexample:
  "arg_n_epochs scenario_args = 2 \<and>
   fst (fit toy (optimise_batch toy) scenario_args scenario_model) =
     Inr (Logger [(''total'', [Fin 7]), (''kl'', [Fin 0])]) \<and>
   entries_per_field (fst (fit toy (optimise_batch toy) scenario_args scenario_model)) = [1, 1] \<and>
   entries_per_field (fst (fit toy (optimise_batch toy) scenario_args scenario_model)) \<noteq> [2, 2]"
  by code_simp

section \<open>Views of different sample counts\<close>



















end
